theory Spec2Isabelle
  imports Complex_Main
begin

section \<open>The annotation backend: rows, tables and payloads\<close>

text \<open>
  The handlers of \<^verbatim>\<open>backend/main.py\<close> work on six tables through an ORM session.
  A table is the list of its rows in the order the engine returns them for a query
  without \<^verbatim>\<open>ORDER BY\<close>; a row is a record of its columns. The timestamp columns
  (\<^verbatim>\<open>created_at\<close>, \<^verbatim>\<open>updated_at\<close>) read the clock and are left out.
  Columns that a handler can set to \<^verbatim>\<open>None\<close> are options.
\<close>

record user =
  u_id :: int
  u_email :: string
  u_username :: string
  u_first_name :: string
  u_last_name :: string
  u_hashed_password :: string
  u_is_admin :: bool
  u_is_evaluator :: bool
  u_is_active :: bool
  u_guidelines_seen :: bool
  u_preferred_language :: string

record user_language =
  ul_id :: int
  ul_user_id :: int
  ul_language :: string

record sentence =
  s_id :: int
  s_source_text :: string
  s_machine_translation :: string
  s_source_language :: string
  s_target_language :: string
  s_domain :: "string option"
  s_is_active :: bool

record annotation =
  a_id :: int
  a_sentence_id :: int
  a_annotator_id :: int
  a_fluency_score :: "int option"
  a_adequacy_score :: "int option"
  a_overall_quality :: "int option"
  a_errors_found :: "string option"
  a_suggested_correction :: "string option"
  a_comments :: "string option"
  a_final_form :: "string option"
  a_time_spent_seconds :: "int option"
  a_annotation_status :: "string option"

record text_highlight =
  h_id :: int
  h_annotation_id :: int
  h_highlighted_text :: string
  h_start_index :: int
  h_end_index :: int
  h_text_type :: string
  h_comment :: string

record evaluation =
  e_id :: int
  e_annotation_id :: int
  e_evaluator_id :: int
  e_annotation_quality_score :: "int option"
  e_accuracy_score :: "int option"
  e_completeness_score :: "int option"
  e_overall_evaluation_score :: "int option"
  e_feedback :: "string option"
  e_evaluation_notes :: "string option"
  e_time_spent_seconds :: "int option"
  e_evaluation_status :: "string option"

record db =
  users :: "user list"
  user_languages :: "user_language list"
  sentences :: "sentence list"
  annotations :: "annotation list"
  text_highlights :: "text_highlight list"
  evaluations :: "evaluation list"

definition empty_db :: db where
  "empty_db = \<lparr>users = [], user_languages = [], sentences = [], annotations = [],
     text_highlights = [], evaluations = []\<rparr>"

text \<open>
  What a handler raises. \<^verbatim>\<open>HTTPException(status_code, detail)\<close> is the handlers' own
  error; \<^verbatim>\<open>AttributeError\<close> is Python's, raised on reading an attribute of
  \<^verbatim>\<open>None\<close>, and \<^verbatim>\<open>ZeroDivisionError\<close> on dividing by zero.
\<close>

datatype error = HTTPException int string | AttributeError | ZeroDivisionError

text \<open>
  A handler's outcome: the states it committed, in order (none when it raised before
  its first \<^verbatim>\<open>db.commit()\<close>), and what it returned or raised. Work that was added
  to the session and never committed is dropped with the session.
\<close>

type_synonym 'r outcome = "db list \<times> (error + 'r)"

definition final_db :: "db \<Rightarrow> 'r outcome \<Rightarrow> db" where
  "final_db d out = last (d # fst out)"

subsection \<open>Queries\<close>

text \<open>\<^verbatim>\<open>Query.first()\<close>: the first row of the result, or \<^verbatim>\<open>None\<close>.\<close>

definition first :: "'a list \<Rightarrow> 'a option" where
  "first rows = (case rows of [] \<Rightarrow> None | r # _ \<Rightarrow> Some r)"

text \<open>\<^verbatim>\<open>.offset(skip).limit(limit)\<close>, for the non-negative values the model covers.\<close>

definition offset_limit :: "nat \<Rightarrow> nat \<Rightarrow> 'a list \<Rightarrow> 'a list" where
  "offset_limit skip limit rows = take limit (drop skip rows)"

text \<open>
  The primary key the engine gives an inserted row: one more than the largest key of
  the table, 1 for an empty table.
\<close>

definition next_id :: "int list \<Rightarrow> int" where
  "next_id ids = foldr max ids 0 + 1"

subsection \<open>GET /api/sentences/next\<close>

text \<open>
  \<^verbatim>\<open>
  next_sentence = db.query(Sentence).filter(
      Sentence.is_active == True,
      Sentence.target_language == current_user.preferred_language
  ).filter(
      ~db.query(Annotation).filter(
          Annotation.sentence_id == Sentence.id,
          Annotation.annotator_id == current_user.id
      ).exists()
  ).first()
  return next_sentence
  \<close>
\<close>

definition annotation_exists :: "db \<Rightarrow> int \<Rightarrow> int \<Rightarrow> bool" where
  "annotation_exists d sid uid =
     (filter (\<lambda>a. a_sentence_id a = sid \<and> a_annotator_id a = uid) (annotations d) \<noteq> [])"

definition get_next_sentence :: "db \<Rightarrow> user \<Rightarrow> sentence option" where
  "get_next_sentence d current_user =
     first (filter (\<lambda>s. \<not> annotation_exists d (s_id s) (u_id current_user))
       (filter (\<lambda>s. s_is_active s \<and> s_target_language s = u_preferred_language current_user)
          (sentences d)))"

definition get_unannotated_sentences :: "nat \<Rightarrow> nat \<Rightarrow> db \<Rightarrow> user \<Rightarrow> sentence list" where
  "get_unannotated_sentences skip limit d current_user =
     offset_limit skip limit
       (filter (\<lambda>s. \<not> annotation_exists d (s_id s) (u_id current_user))
         (filter (\<lambda>s. s_is_active s \<and> s_target_language s = u_preferred_language current_user)
            (sentences d)))"

section \<open>Payloads and responses\<close>

text \<open>
  The request models of \<^verbatim>\<open>schemas.py\<close>. An \<^verbatim>\<open>Optional\<close> field is an option.
  The update models are dumped with \<^verbatim>\<open>exclude_unset=True\<close>, so each of their
  fields is either absent from the request (\<open>None\<close>) or set, possibly to
  \<^verbatim>\<open>null\<close> (\<open>Some None\<close>).
\<close>

record user_create =
  uc_email :: string
  uc_username :: string
  uc_first_name :: string
  uc_last_name :: string
  uc_preferred_language :: "string option"
  uc_languages :: "string list option"
  uc_password :: string
  uc_is_evaluator :: "bool option"

record sentence_create =
  sc_source_text :: string
  sc_machine_translation :: string
  sc_source_language :: string
  sc_target_language :: string
  sc_domain :: "string option"

record text_highlight_create =
  hc_highlighted_text :: string
  hc_start_index :: int
  hc_end_index :: int
  hc_text_type :: string
  hc_comment :: string

record legacy_annotation_create =
  ac_fluency_score :: "int option"
  ac_adequacy_score :: "int option"
  ac_overall_quality :: "int option"
  ac_errors_found :: "string option"
  ac_suggested_correction :: "string option"
  ac_comments :: "string option"
  ac_final_form :: "string option"
  ac_time_spent_seconds :: "int option"
  ac_sentence_id :: int

record annotation_create = legacy_annotation_create +
  ac_highlights :: "text_highlight_create list option"

record annotation_update =
  au_fluency_score :: "int option option"
  au_adequacy_score :: "int option option"
  au_overall_quality :: "int option option"
  au_errors_found :: "string option option"
  au_suggested_correction :: "string option option"
  au_comments :: "string option option"
  au_final_form :: "string option option"
  au_time_spent_seconds :: "int option option"
  au_annotation_status :: "string option option"
  au_highlights :: "text_highlight_create list option"

record evaluation_create =
  ec_annotation_quality_score :: "int option"
  ec_accuracy_score :: "int option"
  ec_completeness_score :: "int option"
  ec_overall_evaluation_score :: "int option"
  ec_feedback :: "string option"
  ec_evaluation_notes :: "string option"
  ec_time_spent_seconds :: "int option"
  ec_annotation_id :: int

record evaluation_update =
  eu_annotation_quality_score :: "int option option"
  eu_accuracy_score :: "int option option"
  eu_completeness_score :: "int option option"
  eu_overall_evaluation_score :: "int option option"
  eu_feedback :: "string option option"
  eu_evaluation_notes :: "string option option"
  eu_time_spent_seconds :: "int option option"
  eu_evaluation_status :: "string option option"

record user_response =
  ur_id :: int
  ur_email :: string
  ur_username :: string
  ur_first_name :: string
  ur_last_name :: string
  ur_preferred_language :: string
  ur_is_active :: bool
  ur_is_admin :: bool
  ur_is_evaluator :: bool
  ur_guidelines_seen :: bool
  ur_languages :: "string list"

record token =
  access_token :: string
  token_type :: string
  token_user :: user_response

text \<open>
  An annotation in a response is its row with the highlight rows its
  \<^verbatim>\<open>highlights\<close> relationship loads; an evaluation is its row with its annotation.
  The nested sentence and annotator objects of the JSON are left out, and so is the
  framework's validation of a response against its response model.
\<close>

type_synonym annotation_response = "annotation \<times> text_highlight list"
type_synonym evaluation_response = "evaluation \<times> annotation_response"

record evaluator_stats =
  total_evaluations :: nat
  completed_evaluations :: nat
  pending_evaluations :: nat
  average_time_per_evaluation :: rat

text \<open>
  \<^verbatim>\<open>auth.py\<close> is not among the sources: the two functions of it that
  \<^verbatim>\<open>register\<close> calls are parameters of the model. The token's lifetime is left out.
\<close>

record auth =
  get_password_hash :: "string \<Rightarrow> string"
  create_access_token :: "string \<Rightarrow> string"

section \<open>The handlers that write\<close>

subsection \<open>Helpers of the session\<close>

text \<open>
  A write to an object that a query returned changes that row: the first row of the
  table that the query's filter selects.
\<close>

fun update_first :: "('a \<Rightarrow> bool) \<Rightarrow> ('a \<Rightarrow> 'a) \<Rightarrow> 'a list \<Rightarrow> 'a list" where
  "update_first P f [] = []"
| "update_first P f (x # xs) = (if P x then f x # xs else x # update_first P f xs)"

text \<open>
  \<^verbatim>\<open>for field, value in update_data.items(): setattr(row, field, value)\<close>, for one
  field: a field the request left unset keeps the column's value.
\<close>

definition assign :: "'a option option \<Rightarrow> 'a option \<Rightarrow> 'a option" where
  "assign upd old = (case upd of None \<Rightarrow> old | Some v \<Rightarrow> v)"

text \<open>
  \<^verbatim>\<open>UserResponse.from_orm(obj)\<close>: the user's columns and the languages of its
  \<^verbatim>\<open>UserLanguage\<close> rows.
\<close>

definition get_user_languages :: "db \<Rightarrow> int \<Rightarrow> string list" where
  "get_user_languages d user_id =
     map ul_language (filter (\<lambda>l. ul_user_id l = user_id) (user_languages d))"

definition from_orm :: "db \<Rightarrow> user \<Rightarrow> user_response" where
  "from_orm d obj =
     \<lparr>ur_id = u_id obj, ur_email = u_email obj, ur_username = u_username obj,
      ur_first_name = u_first_name obj, ur_last_name = u_last_name obj,
      ur_preferred_language = u_preferred_language obj, ur_is_active = u_is_active obj,
      ur_is_admin = u_is_admin obj, ur_is_evaluator = u_is_evaluator obj,
      ur_guidelines_seen = u_guidelines_seen obj,
      ur_languages = get_user_languages d (u_id obj)\<rparr>"

text \<open>The rows that \<^verbatim>\<open>annotation.highlights\<close> loads.\<close>

definition highlights_of :: "db \<Rightarrow> int \<Rightarrow> text_highlight list" where
  "highlights_of d annotation_id =
     filter (\<lambda>h. h_annotation_id h = annotation_id) (text_highlights d)"

text \<open>
  \<^verbatim>\<open>for language in languages: db.add(UserLanguage(user_id=..., language=language))\<close>
\<close>

fun add_user_languages :: "int \<Rightarrow> string list \<Rightarrow> user_language list \<Rightarrow> user_language list" where
  "add_user_languages user_id [] table = table"
| "add_user_languages user_id (language # rest) table =
     add_user_languages user_id rest
       (table @ [\<lparr>ul_id = next_id (map ul_id table), ul_user_id = user_id,
                   ul_language = language\<rparr>])"

text \<open>
  The deduplication loop of \<^verbatim>\<open>create_annotation\<close> and \<^verbatim>\<open>update_annotation\<close>:
  \<^verbatim>\<open>
  unique_highlights = []
  seen = set()
  for h in annotation_data.highlights:
      key = (h.start_index, h.end_index, h.text_type, h.comment)
      if key not in seen:
          seen.add(key)
          unique_highlights.append(h)
  \<close>
\<close>

type_synonym highlight_key = "int \<times> int \<times> string \<times> string"

definition key_of :: "text_highlight_create \<Rightarrow> highlight_key" where
  "key_of h = (hc_start_index h, hc_end_index h, hc_text_type h, hc_comment h)"

fun dedup_loop ::
  "text_highlight_create list \<Rightarrow> highlight_key set \<Rightarrow> text_highlight_create list
     \<Rightarrow> text_highlight_create list" where
  "dedup_loop [] seen unique_highlights = unique_highlights"
| "dedup_loop (h # hs) seen unique_highlights =
     (if key_of h \<notin> seen
      then dedup_loop hs (insert (key_of h) seen) (unique_highlights @ [h])
      else dedup_loop hs seen unique_highlights)"

definition unique_highlights :: "text_highlight_create list \<Rightarrow> text_highlight_create list" where
  "unique_highlights highlights = dedup_loop highlights {} []"

text \<open>
  \<^verbatim>\<open>for highlight_data in unique_highlights: db.add(TextHighlight(annotation_id=..., ...))\<close>
\<close>

fun add_highlights ::
  "int \<Rightarrow> text_highlight_create list \<Rightarrow> text_highlight list \<Rightarrow> text_highlight list" where
  "add_highlights annotation_id [] table = table"
| "add_highlights annotation_id (highlight_data # rest) table =
     add_highlights annotation_id rest
       (table @ [\<lparr>h_id = next_id (map h_id table), h_annotation_id = annotation_id,
                   h_highlighted_text = hc_highlighted_text highlight_data,
                   h_start_index = hc_start_index highlight_data,
                   h_end_index = hc_end_index highlight_data,
                   h_text_type = hc_text_type highlight_data,
                   h_comment = hc_comment highlight_data\<rparr>])"

text \<open>
  \<^verbatim>\<open>for sentence_data in sentences_data: db.add(Sentence(**sentence_data.model_dump()))\<close>.
  A sentence is created without \<^verbatim>\<open>is_active\<close> and the column's default applies;
  \<^verbatim>\<open>database.py\<close> is not among the sources, the default is taken to be \<open>True\<close>
  (the listing handlers show active sentences only).
\<close>

definition new_sentence :: "int \<Rightarrow> sentence_create \<Rightarrow> sentence" where
  "new_sentence i sentence_data =
     \<lparr>s_id = i, s_source_text = sc_source_text sentence_data,
      s_machine_translation = sc_machine_translation sentence_data,
      s_source_language = sc_source_language sentence_data,
      s_target_language = sc_target_language sentence_data,
      s_domain = sc_domain sentence_data, s_is_active = True\<rparr>"

fun add_sentences :: "sentence_create list \<Rightarrow> sentence list \<Rightarrow> sentence list" where
  "add_sentences [] table = table"
| "add_sentences (sentence_data # rest) table =
     add_sentences rest (table @ [new_sentence (next_id (map s_id table)) sentence_data])"

subsection \<open>POST /api/register\<close>

text \<open>
  \<^verbatim>\<open>
  preferred_language=user_data.preferred_language if user_data.preferred_language
      else user_data.languages[0] if user_data.languages else "tagalog"
  \<close>
  An empty string and an empty list are false in Python, as \<^verbatim>\<open>None\<close> is.
\<close>

definition choose_preferred_language :: "string option \<Rightarrow> string list option \<Rightarrow> string" where
  "choose_preferred_language preferred_language languages =
     (case preferred_language of
        Some (c # cs) \<Rightarrow> c # cs
      | _ \<Rightarrow> (case languages of Some (language # _) \<Rightarrow> language | _ \<Rightarrow> ''tagalog''))"

text \<open>
  The new row. The columns the constructor is not given (\<^verbatim>\<open>is_admin\<close>,
  \<^verbatim>\<open>is_active\<close>, \<^verbatim>\<open>guidelines_seen\<close>) take their defaults, which are those
  \<^verbatim>\<open>UserResponse.from_orm\<close> falls back to; \<^verbatim>\<open>is_evaluator\<close> is a flag, and a
  \<^verbatim>\<open>null\<close> in the request leaves it at its default too.
\<close>

definition new_user :: "auth \<Rightarrow> int \<Rightarrow> user_create \<Rightarrow> user" where
  "new_user au i user_data =
     \<lparr>u_id = i, u_email = uc_email user_data, u_username = uc_username user_data,
      u_first_name = uc_first_name user_data, u_last_name = uc_last_name user_data,
      u_hashed_password = get_password_hash au (uc_password user_data),
      u_is_admin = False,
      u_is_evaluator = (case uc_is_evaluator user_data of Some b \<Rightarrow> b | None \<Rightarrow> False),
      u_is_active = True, u_guidelines_seen = False,
      u_preferred_language =
        choose_preferred_language (uc_preferred_language user_data) (uc_languages user_data)\<rparr>"

definition register :: "auth \<Rightarrow> db \<Rightarrow> user_create \<Rightarrow> token outcome" where
  "register au d user_data =
     (case first (filter (\<lambda>u. u_email u = uc_email user_data \<or>
                               u_username u = uc_username user_data) (users d)) of
        Some existing_user \<Rightarrow>
          ([], Inl (HTTPException 400 ''Email or username already registered''))
      | None \<Rightarrow>
          (let db_user = new_user au (next_id (map u_id (users d))) user_data;
               d1 = d\<lparr>users := users d @ [db_user]\<rparr>;
               commits =
                 (case uc_languages user_data of
                    Some (language # rest) \<Rightarrow>
                      [d1, d1\<lparr>user_languages :=
                         add_user_languages (u_id db_user) (language # rest) (user_languages d1)\<rparr>]
                  | _ \<Rightarrow>
                      (case uc_preferred_language user_data of
                         Some (c # cs) \<Rightarrow>
                           [d1, d1\<lparr>user_languages :=
                              add_user_languages (u_id db_user) [c # cs] (user_languages d1)\<rparr>]
                       | _ \<Rightarrow> [d1]))
           in (commits,
               Inr \<lparr>access_token = create_access_token au (u_email db_user),
                    token_type = ''bearer'',
                    token_user = from_orm (last commits) db_user\<rparr>)))"

subsection \<open>PUT /api/me/guidelines-seen\<close>

definition mark_guidelines_seen :: "db \<Rightarrow> user \<Rightarrow> user_response outcome" where
  "mark_guidelines_seen d current_user =
     (let d1 = d\<lparr>users := update_first (\<lambda>u. u_id u = u_id current_user)
                      (\<lambda>u. u\<lparr>u_guidelines_seen := True\<rparr>) (users d)\<rparr>
      in ([d1], Inr (from_orm d1 (current_user\<lparr>u_guidelines_seen := True\<rparr>))))"

subsection \<open>POST /api/sentences and POST /api/admin/sentences/bulk\<close>

definition create_sentence :: "db \<Rightarrow> sentence_create \<Rightarrow> sentence outcome" where
  "create_sentence d sentence_data =
     (let db_sentence = new_sentence (next_id (map s_id (sentences d))) sentence_data;
          d1 = d\<lparr>sentences := sentences d @ [db_sentence]\<rparr>
      in ([d1], Inr db_sentence))"

definition bulk_create_sentences :: "db \<Rightarrow> sentence_create list \<Rightarrow> sentence list outcome" where
  "bulk_create_sentences d sentences_data =
     (let d1 = d\<lparr>sentences := add_sentences sentences_data (sentences d)\<rparr>
      in ([d1], Inr (drop (length (sentences d)) (sentences d1))))"

subsection \<open>POST /api/annotations and POST /api/annotations/legacy\<close>

text \<open>
  \<^verbatim>\<open>Annotation(**annotation_dict, annotator_id=current_user.id,
  annotation_status="completed")\<close>
\<close>

definition new_annotation ::
  "int \<Rightarrow> int \<Rightarrow> 'x legacy_annotation_create_scheme \<Rightarrow> annotation" where
  "new_annotation i annotator_id annotation_data =
     \<lparr>a_id = i, a_sentence_id = ac_sentence_id annotation_data, a_annotator_id = annotator_id,
      a_fluency_score = ac_fluency_score annotation_data,
      a_adequacy_score = ac_adequacy_score annotation_data,
      a_overall_quality = ac_overall_quality annotation_data,
      a_errors_found = ac_errors_found annotation_data,
      a_suggested_correction = ac_suggested_correction annotation_data,
      a_comments = ac_comments annotation_data,
      a_final_form = ac_final_form annotation_data,
      a_time_spent_seconds = ac_time_spent_seconds annotation_data,
      a_annotation_status = Some ''completed''\<rparr>"

text \<open>
  The pre-check, the insertion of the annotation (flushed, not committed, to learn its
  id), the deduplicated highlights when the list is not empty, and one commit.
\<close>

definition create_annotation :: "db \<Rightarrow> user \<Rightarrow> annotation_create \<Rightarrow> annotation_response outcome" where
  "create_annotation d current_user annotation_data =
     (case first (filter (\<lambda>a. a_sentence_id a = ac_sentence_id annotation_data \<and>
                               a_annotator_id a = u_id current_user) (annotations d)) of
        Some existing_annotation \<Rightarrow>
          ([], Inl (HTTPException 400 ''You have already annotated this sentence''))
      | None \<Rightarrow>
          (let db_annotation =
                 new_annotation (next_id (map a_id (annotations d))) (u_id current_user)
                   annotation_data;
               flushed = d\<lparr>annotations := annotations d @ [db_annotation]\<rparr>;
               d1 = (case ac_highlights annotation_data of
                       Some (h # hs) \<Rightarrow>
                         flushed\<lparr>text_highlights :=
                           add_highlights (a_id db_annotation) (unique_highlights (h # hs))
                             (text_highlights flushed)\<rparr>
                     | _ \<Rightarrow> flushed)
           in ([d1], Inr (db_annotation, highlights_of d1 (a_id db_annotation)))))"

definition create_legacy_annotation ::
  "db \<Rightarrow> user \<Rightarrow> legacy_annotation_create \<Rightarrow> annotation outcome" where
  "create_legacy_annotation d current_user annotation_data =
     (case first (filter (\<lambda>a. a_sentence_id a = ac_sentence_id annotation_data \<and>
                               a_annotator_id a = u_id current_user) (annotations d)) of
        Some existing_annotation \<Rightarrow>
          ([], Inl (HTTPException 400 ''You have already annotated this sentence''))
      | None \<Rightarrow>
          (let db_annotation =
                 new_annotation (next_id (map a_id (annotations d))) (u_id current_user)
                   annotation_data;
               d1 = d\<lparr>annotations := annotations d @ [db_annotation]\<rparr>
           in ([d1], Inr db_annotation)))"

subsection \<open>PUT /api/annotations/{annotation_id}\<close>

definition set_annotation_fields :: "annotation_update \<Rightarrow> annotation \<Rightarrow> annotation" where
  "set_annotation_fields annotation_data a =
     a\<lparr>a_fluency_score := assign (au_fluency_score annotation_data) (a_fluency_score a),
       a_adequacy_score := assign (au_adequacy_score annotation_data) (a_adequacy_score a),
       a_overall_quality := assign (au_overall_quality annotation_data) (a_overall_quality a),
       a_errors_found := assign (au_errors_found annotation_data) (a_errors_found a),
       a_suggested_correction :=
         assign (au_suggested_correction annotation_data) (a_suggested_correction a),
       a_comments := assign (au_comments annotation_data) (a_comments a),
       a_final_form := assign (au_final_form annotation_data) (a_final_form a),
       a_time_spent_seconds :=
         assign (au_time_spent_seconds annotation_data) (a_time_spent_seconds a),
       a_annotation_status :=
         assign (au_annotation_status annotation_data) (a_annotation_status a)\<rparr>"

text \<open>
  When the request carries highlights (\<^verbatim>\<open>is not None\<close>, so an empty list counts),
  the annotation's highlight rows are deleted and the deduplicated list is inserted.
\<close>

definition update_annotation ::
  "db \<Rightarrow> user \<Rightarrow> int \<Rightarrow> annotation_update \<Rightarrow> annotation_response outcome" where
  "update_annotation d current_user annotation_id annotation_data =
     (case first (filter (\<lambda>a. a_id a = annotation_id \<and> a_annotator_id a = u_id current_user)
                    (annotations d)) of
        None \<Rightarrow> ([], Inl (HTTPException 404 ''Annotation not found''))
      | Some annotation \<Rightarrow>
          (let updated = d\<lparr>annotations :=
                 update_first (\<lambda>a. a_id a = annotation_id \<and> a_annotator_id a = u_id current_user)
                   (set_annotation_fields annotation_data) (annotations d)\<rparr>;
               d1 = (case au_highlights annotation_data of
                       None \<Rightarrow> updated
                     | Some highlights \<Rightarrow>
                         updated\<lparr>text_highlights :=
                           add_highlights annotation_id (unique_highlights highlights)
                             (filter (\<lambda>h. h_annotation_id h \<noteq> annotation_id)
                                (text_highlights updated))\<rparr>)
           in ([d1], Inr (set_annotation_fields annotation_data annotation,
                          highlights_of d1 annotation_id))))"

subsection \<open>PUT /api/admin/users/{user_id}/toggle-evaluator\<close>

definition toggle_user_evaluator_role :: "db \<Rightarrow> int \<Rightarrow> user_response outcome" where
  "toggle_user_evaluator_role d user_id =
     (case first (filter (\<lambda>u. u_id u = user_id) (users d)) of
        None \<Rightarrow> ([], Inl (HTTPException 404 ''User not found''))
      | Some user \<Rightarrow>
          (let d1 = d\<lparr>users := update_first (\<lambda>u. u_id u = user_id)
                           (\<lambda>u. u\<lparr>u_is_evaluator := \<not> u_is_evaluator u\<rparr>) (users d)\<rparr>
           in ([d1], Inr (from_orm d1 (user\<lparr>u_is_evaluator := \<not> u_is_evaluator user\<rparr>)))))"

subsection \<open>POST /api/evaluations and PUT /api/evaluations/{evaluation_id}\<close>

definition new_evaluation :: "int \<Rightarrow> int \<Rightarrow> evaluation_create \<Rightarrow> evaluation" where
  "new_evaluation i evaluator_id evaluation_data =
     \<lparr>e_id = i, e_annotation_id = ec_annotation_id evaluation_data,
      e_evaluator_id = evaluator_id,
      e_annotation_quality_score = ec_annotation_quality_score evaluation_data,
      e_accuracy_score = ec_accuracy_score evaluation_data,
      e_completeness_score = ec_completeness_score evaluation_data,
      e_overall_evaluation_score = ec_overall_evaluation_score evaluation_data,
      e_feedback = ec_feedback evaluation_data,
      e_evaluation_notes = ec_evaluation_notes evaluation_data,
      e_time_spent_seconds = ec_time_spent_seconds evaluation_data,
      e_evaluation_status = Some ''completed''\<rparr>"

text \<open>
  The evaluation is committed first. Then the annotation is looked up: when there is
  one its status is set and committed in a second commit; when there is none (the
  handler tests for it) nothing more is written, and building the response raises on
  \<^verbatim>\<open>db_evaluation.annotation.id\<close>.
\<close>

definition create_evaluation ::
  "db \<Rightarrow> user \<Rightarrow> evaluation_create \<Rightarrow> evaluation_response outcome" where
  "create_evaluation d current_user evaluation_data =
     (case first (filter (\<lambda>e. e_annotation_id e = ec_annotation_id evaluation_data \<and>
                               e_evaluator_id e = u_id current_user) (evaluations d)) of
        Some existing_evaluation \<Rightarrow>
          ([], Inl (HTTPException 400 ''You have already evaluated this annotation''))
      | None \<Rightarrow>
          (let db_evaluation =
                 new_evaluation (next_id (map e_id (evaluations d))) (u_id current_user)
                   evaluation_data;
               d1 = d\<lparr>evaluations := evaluations d @ [db_evaluation]\<rparr>
           in (case first (filter (\<lambda>a. a_id a = ec_annotation_id evaluation_data)
                             (annotations d1)) of
                 None \<Rightarrow> ([d1], Inl AttributeError)
               | Some annotation \<Rightarrow>
                   (let d2 = d1\<lparr>annotations :=
                          update_first (\<lambda>a. a_id a = ec_annotation_id evaluation_data)
                            (\<lambda>a. a\<lparr>a_annotation_status := Some ''reviewed''\<rparr>) (annotations d1)\<rparr>
                    in ([d1, d2],
                        Inr (db_evaluation,
                             annotation\<lparr>a_annotation_status := Some ''reviewed''\<rparr>,
                             highlights_of d2 (a_id annotation)))))))"

definition set_evaluation_fields :: "evaluation_update \<Rightarrow> evaluation \<Rightarrow> evaluation" where
  "set_evaluation_fields evaluation_data e =
     e\<lparr>e_annotation_quality_score :=
         assign (eu_annotation_quality_score evaluation_data) (e_annotation_quality_score e),
       e_accuracy_score := assign (eu_accuracy_score evaluation_data) (e_accuracy_score e),
       e_completeness_score :=
         assign (eu_completeness_score evaluation_data) (e_completeness_score e),
       e_overall_evaluation_score :=
         assign (eu_overall_evaluation_score evaluation_data) (e_overall_evaluation_score e),
       e_feedback := assign (eu_feedback evaluation_data) (e_feedback e),
       e_evaluation_notes := assign (eu_evaluation_notes evaluation_data) (e_evaluation_notes e),
       e_time_spent_seconds :=
         assign (eu_time_spent_seconds evaluation_data) (e_time_spent_seconds e),
       e_evaluation_status :=
         assign (eu_evaluation_status evaluation_data) (e_evaluation_status e)\<rparr>"

definition update_evaluation ::
  "db \<Rightarrow> user \<Rightarrow> int \<Rightarrow> evaluation_update \<Rightarrow> evaluation_response outcome" where
  "update_evaluation d current_user evaluation_id evaluation_data =
     (case first (filter (\<lambda>e. e_id e = evaluation_id \<and> e_evaluator_id e = u_id current_user)
                    (evaluations d)) of
        None \<Rightarrow> ([], Inl (HTTPException 404 ''Evaluation not found''))
      | Some evaluation \<Rightarrow>
          (let d1 = d\<lparr>evaluations :=
                 update_first (\<lambda>e. e_id e = evaluation_id \<and> e_evaluator_id e = u_id current_user)
                   (set_evaluation_fields evaluation_data) (evaluations d)\<rparr>
           in (case first (filter (\<lambda>a. a_id a = e_annotation_id evaluation) (annotations d1)) of
                 None \<Rightarrow> ([d1], Inl AttributeError)
               | Some annotation \<Rightarrow>
                   ([d1], Inr (set_evaluation_fields evaluation_data evaluation,
                               annotation, highlights_of d1 (a_id annotation))))))"

subsection \<open>POST /api/me/languages\<close>

text \<open>
  \<^verbatim>\<open>
  db.query(UserLanguage).filter(UserLanguage.user_id == current_user.id).delete()
  for language in languages:
      db.add(UserLanguage(user_id=current_user.id, language=language))
  if languages:
      current_user.preferred_language = languages[0]
      db.add(current_user)
  db.commit()
  return languages
  \<close>
\<close>

definition update_user_languages :: "db \<Rightarrow> user \<Rightarrow> string list \<Rightarrow> string list outcome" where
  "update_user_languages d current_user languages =
     (let deleted = d\<lparr>user_languages :=
            filter (\<lambda>l. ul_user_id l \<noteq> u_id current_user) (user_languages d)\<rparr>;
          added = deleted\<lparr>user_languages :=
            add_user_languages (u_id current_user) languages (user_languages deleted)\<rparr>;
          d1 = (case languages of
                  [] \<Rightarrow> added
                | language # _ \<Rightarrow>
                    added\<lparr>users := update_first (\<lambda>u. u_id u = u_id current_user)
                             (\<lambda>u. u\<lparr>u_preferred_language := language\<rparr>) (users added)\<rparr>)
      in ([d1], Inr languages))"

section \<open>The handlers that read\<close>

subsection \<open>GET /api/evaluations/pending\<close>

text \<open>
  \<^verbatim>\<open>
  evaluated_annotation_ids = db.query(Evaluation.annotation_id).filter(
      Evaluation.evaluator_id == current_user.id).subquery()
  annotations = db.query(Annotation).filter(
      Annotation.annotation_status == "completed",
      ~Annotation.id.in_(evaluated_annotation_ids)
  ).offset(skip).limit(limit).all()
  \<close>
\<close>

definition evaluated_annotation_ids :: "db \<Rightarrow> user \<Rightarrow> int list" where
  "evaluated_annotation_ids d current_user =
     map e_annotation_id (filter (\<lambda>e. e_evaluator_id e = u_id current_user) (evaluations d))"

definition get_pending_evaluations ::
  "nat \<Rightarrow> nat \<Rightarrow> db \<Rightarrow> user \<Rightarrow> annotation_response list" where
  "get_pending_evaluations skip limit d current_user =
     map (\<lambda>annotation. (annotation, highlights_of d (a_id annotation)))
       (offset_limit skip limit
          (filter (\<lambda>a. a_annotation_status a = Some ''completed'' \<and>
                        a_id a \<notin> set (evaluated_annotation_ids d current_user))
             (annotations d)))"

subsection \<open>GET /api/evaluator/stats\<close>

text \<open>
  Python's \<^verbatim>\<open>/\<close> on two integers raises on a zero divisor; the quotient is kept
  exact here (Python rounds it to the nearest double).
\<close>

definition true_div :: "int \<Rightarrow> int \<Rightarrow> error + rat" where
  "true_div a b = (if b = 0 then Inl ZeroDivisionError else Inr (of_int a / of_int b))"

text \<open>
  \<^verbatim>\<open>
  evaluations_with_time = db.query(Evaluation).filter(
      Evaluation.evaluator_id == current_user.id,
      Evaluation.time_spent_seconds.isnot(None)).all()
  average_time = 0.0
  if evaluations_with_time:
      total_time = sum(e.time_spent_seconds for e in evaluations_with_time)
      average_time = total_time / len(evaluations_with_time)
  \<close>
\<close>

definition evaluations_with_time :: "db \<Rightarrow> user \<Rightarrow> evaluation list" where
  "evaluations_with_time d current_user =
     filter (\<lambda>e. e_evaluator_id e = u_id current_user \<and> e_time_spent_seconds e \<noteq> None)
       (evaluations d)"

definition time_spent :: "evaluation \<Rightarrow> int" where
  "time_spent e = (case e_time_spent_seconds e of Some t \<Rightarrow> t | None \<Rightarrow> 0)"

definition average_time :: "evaluation list \<Rightarrow> error + rat" where
  "average_time with_time =
     (if with_time \<noteq> []
      then true_div (sum_list (map time_spent with_time)) (int (length with_time))
      else Inr 0)"

definition get_evaluator_stats :: "db \<Rightarrow> user \<Rightarrow> error + evaluator_stats" where
  "get_evaluator_stats d current_user =
     (case average_time (evaluations_with_time d current_user) of
        Inl e \<Rightarrow> Inl e
      | Inr avg \<Rightarrow>
          Inr \<lparr>total_evaluations =
                 length (filter (\<lambda>e. e_evaluator_id e = u_id current_user) (evaluations d)),
               completed_evaluations =
                 length (filter (\<lambda>e. e_evaluator_id e = u_id current_user \<and>
                                      e_evaluation_status e = Some ''completed'') (evaluations d)),
               pending_evaluations =
                 length (filter (\<lambda>a. a_annotation_status a = Some ''completed'' \<and>
                                      a_id a \<notin> set (evaluated_annotation_ids d current_user))
                           (annotations d)),
               average_time_per_evaluation = avg\<rparr>)"

section \<open>The API as one transition function\<close>

datatype api_call =
    Register user_create
  | MarkGuidelinesSeen
  | CreateSentence sentence_create
  | BulkCreateSentences "sentence_create list"
  | CreateAnnotation annotation_create
  | CreateLegacyAnnotation legacy_annotation_create
  | UpdateAnnotation int annotation_update
  | ToggleUserEvaluatorRole int
  | CreateEvaluation evaluation_create
  | UpdateEvaluation int evaluation_update
  | UpdateUserLanguages "string list"

text \<open>
  The states a call commits. The caller of every handler but
  \<^verbatim>\<open>register\<close> is the authenticated user that the (absent) auth dependency
  supplies; the role checks of that dependency are not part of the model. The handlers
  that only read never commit and are not calls here. The script \<^verbatim>\<open>init_db.py\<close>,
  which inserts an admin and sample sentences into an empty database, is not an API
  operation and is not modelled.
\<close>

fun commits_of :: "auth \<Rightarrow> db \<Rightarrow> user \<Rightarrow> api_call \<Rightarrow> db list" where
  "commits_of au d cu (Register user_data) = fst (register au d user_data)"
| "commits_of au d cu MarkGuidelinesSeen = fst (mark_guidelines_seen d cu)"
| "commits_of au d cu (CreateSentence sentence_data) = fst (create_sentence d sentence_data)"
| "commits_of au d cu (BulkCreateSentences sentences_data) =
     fst (bulk_create_sentences d sentences_data)"
| "commits_of au d cu (CreateAnnotation annotation_data) =
     fst (create_annotation d cu annotation_data)"
| "commits_of au d cu (CreateLegacyAnnotation annotation_data) =
     fst (create_legacy_annotation d cu annotation_data)"
| "commits_of au d cu (UpdateAnnotation annotation_id annotation_data) =
     fst (update_annotation d cu annotation_id annotation_data)"
| "commits_of au d cu (ToggleUserEvaluatorRole user_id) =
     fst (toggle_user_evaluator_role d user_id)"
| "commits_of au d cu (CreateEvaluation evaluation_data) =
     fst (create_evaluation d cu evaluation_data)"
| "commits_of au d cu (UpdateEvaluation evaluation_id evaluation_data) =
     fst (update_evaluation d cu evaluation_id evaluation_data)"
| "commits_of au d cu (UpdateUserLanguages languages) =
     fst (update_user_languages d cu languages)"

definition exec :: "auth \<Rightarrow> db \<Rightarrow> user \<Rightarrow> api_call \<Rightarrow> db" where
  "exec au d cu call = last (d # commits_of au d cu call)"

section \<open>Predicates of the properties and example data\<close>

text \<open>The (sentence, annotator) pairs of the stored annotations, in table order.\<close>

definition annotation_pairs :: "db \<Rightarrow> (int \<times> int) list" where
  "annotation_pairs d = map (\<lambda>a. (a_sentence_id a, a_annotator_id a)) (annotations d)"

text \<open>The deduplication key of a stored highlight row.\<close>

definition stored_key :: "text_highlight \<Rightarrow> highlight_key" where
  "stored_key h = (h_start_index h, h_end_index h, h_text_type h, h_comment h)"

text \<open>
  The users, annotations and evaluations of \<open>d\<close> are in \<open>d'\<close> under their ids, and
  the sentence rows of \<open>d\<close> are rows of \<open>d'\<close>.
\<close>

definition kept :: "db \<Rightarrow> db \<Rightarrow> bool" where
  "kept d d' \<longleftrightarrow>
     set (map u_id (users d)) \<subseteq> set (map u_id (users d')) \<and>
     set (sentences d) \<subseteq> set (sentences d') \<and>
     set (map a_id (annotations d)) \<subseteq> set (map a_id (annotations d')) \<and>
     set (map e_id (evaluations d)) \<subseteq> set (map e_id (evaluations d'))"

text \<open>
  What the properties assume of a database: the sentences are in primary-key order,
  the ids of users and of annotations are keys, and every highlight belongs to a
  stored annotation.
\<close>

definition well_formed :: "db \<Rightarrow> bool" where
  "well_formed d \<longleftrightarrow>
     sorted_wrt (<) (map s_id (sentences d)) \<and>
     distinct (map u_id (users d)) \<and>
     distinct (map a_id (annotations d)) \<and>
     (\<forall>h\<in>set (text_highlights d). h_annotation_id h \<in> set (map a_id (annotations d)))"

subsection \<open>A small database for the examples\<close>

definition demo_auth :: auth where
  "demo_auth = \<lparr>get_password_hash = (\<lambda>p. ''hash:'' @ p),
                 create_access_token = (\<lambda>s. ''token:'' @ s)\<rparr>"

definition demo_annotator :: user where
  "demo_annotator =
     \<lparr>u_id = 1, u_email = ''ana@example.com'', u_username = ''ana'', u_first_name = ''Ana'',
      u_last_name = ''Cruz'', u_hashed_password = ''hash:pw1'', u_is_admin = False,
      u_is_evaluator = False, u_is_active = True, u_guidelines_seen = True,
      u_preferred_language = ''fr''\<rparr>"

definition demo_evaluator :: user where
  "demo_evaluator =
     \<lparr>u_id = 2, u_email = ''ben@example.com'', u_username = ''ben'', u_first_name = ''Ben'',
      u_last_name = ''Reyes'', u_hashed_password = ''hash:pw2'', u_is_admin = False,
      u_is_evaluator = True, u_is_active = True, u_guidelines_seen = False,
      u_preferred_language = ''fr''\<rparr>"

definition demo_sentence :: "int \<Rightarrow> string \<Rightarrow> bool \<Rightarrow> sentence" where
  "demo_sentence i target active =
     \<lparr>s_id = i, s_source_text = ''The cat sat on the mat.'',
      s_machine_translation = ''Le chat'', s_source_language = ''en'',
      s_target_language = target, s_domain = Some ''general'', s_is_active = active\<rparr>"

definition demo_annotation :: "int \<Rightarrow> int \<Rightarrow> int \<Rightarrow> string \<Rightarrow> annotation" where
  "demo_annotation i sentence_id annotator_id status =
     \<lparr>a_id = i, a_sentence_id = sentence_id, a_annotator_id = annotator_id,
      a_fluency_score = Some 4, a_adequacy_score = Some 3, a_overall_quality = Some 4,
      a_errors_found = None, a_suggested_correction = None, a_comments = Some ''ok'',
      a_final_form = None, a_time_spent_seconds = Some 60,
      a_annotation_status = Some status\<rparr>"

definition demo_evaluation :: "int \<Rightarrow> int \<Rightarrow> int \<Rightarrow> int option \<Rightarrow> evaluation" where
  "demo_evaluation i annotation_id evaluator_id seconds =
     \<lparr>e_id = i, e_annotation_id = annotation_id, e_evaluator_id = evaluator_id,
      e_annotation_quality_score = Some 5, e_accuracy_score = Some 4,
      e_completeness_score = Some 4, e_overall_evaluation_score = Some 4,
      e_feedback = None, e_evaluation_notes = None, e_time_spent_seconds = seconds,
      e_evaluation_status = Some ''completed''\<rparr>"

definition demo_db :: db where
  "demo_db =
     \<lparr>users = [demo_annotator, demo_evaluator],
      user_languages =
        [\<lparr>ul_id = 1, ul_user_id = 1, ul_language = ''fr''\<rparr>,
         \<lparr>ul_id = 2, ul_user_id = 2, ul_language = ''fr''\<rparr>],
      sentences =
        [demo_sentence 1 ''fr'' True, demo_sentence 2 ''fr'' False,
         demo_sentence 3 ''en'' True, demo_sentence 4 ''fr'' True,
         demo_sentence 5 ''fr'' True],
      annotations =
        [demo_annotation 1 1 1 ''completed'', demo_annotation 2 4 2 ''completed'',
         demo_annotation 3 3 1 ''reviewed'', demo_annotation 4 5 2 ''completed''],
      text_highlights =
        [\<lparr>h_id = 1, h_annotation_id = 1, h_highlighted_text = ''chat'', h_start_index = 3,
          h_end_index = 7, h_text_type = ''machine'', h_comment = ''wrong word''\<rparr>],
      evaluations =
        [demo_evaluation 1 3 2 (Some 30), demo_evaluation 2 2 2 None,
         demo_evaluation 3 2 1 (Some 45), demo_evaluation 4 4 2 (Some 15)]\<rparr>"

text \<open>Requests for the examples.\<close>

definition demo_annotation_create :: "int \<Rightarrow> text_highlight_create list option \<Rightarrow> annotation_create" where
  "demo_annotation_create sentence_id highlights =
     \<lparr>ac_fluency_score = Some 5, ac_adequacy_score = Some 5, ac_overall_quality = Some 5,
      ac_errors_found = None, ac_suggested_correction = None, ac_comments = None,
      ac_final_form = None, ac_time_spent_seconds = Some 20, ac_sentence_id = sentence_id,
      ac_highlights = highlights\<rparr>"

definition demo_evaluation_create :: "int \<Rightarrow> evaluation_create" where
  "demo_evaluation_create annotation_id =
     \<lparr>ec_annotation_quality_score = Some 4, ec_accuracy_score = Some 4,
      ec_completeness_score = Some 3, ec_overall_evaluation_score = Some 4,
      ec_feedback = Some ''fine'', ec_evaluation_notes = None,
      ec_time_spent_seconds = Some 25, ec_annotation_id = annotation_id\<rparr>"

definition demo_highlight :: "string \<Rightarrow> int \<Rightarrow> int \<Rightarrow> string \<Rightarrow> text_highlight_create" where
  "demo_highlight text start end comment =
     \<lparr>hc_highlighted_text = text, hc_start_index = start, hc_end_index = end,
      hc_text_type = ''machine'', hc_comment = comment\<rparr>"

definition demo_highlights :: "text_highlight_create list" where
  "demo_highlights =
     [demo_highlight ''Le'' 0 2 ''article'', demo_highlight ''chat'' 3 7 ''noun'',
      demo_highlight ''LE'' 0 2 ''article'', demo_highlight ''Le'' 0 2 ''casing'']"

definition demo_annotation_update :: "text_highlight_create list option \<Rightarrow> annotation_update" where
  "demo_annotation_update highlights =
     \<lparr>au_fluency_score = None, au_adequacy_score = Some (Some 2), au_overall_quality = None,
      au_errors_found = None, au_suggested_correction = None, au_comments = Some None,
      au_final_form = None, au_time_spent_seconds = None, au_annotation_status = None,
      au_highlights = highlights\<rparr>"

definition demo_user_create :: "string option \<Rightarrow> string list option \<Rightarrow> user_create" where
  "demo_user_create preferred_language languages =
     \<lparr>uc_email = ''cora@example.com'', uc_username = ''cora'', uc_first_name = ''Cora'',
      uc_last_name = ''Lim'', uc_preferred_language = preferred_language,
      uc_languages = languages, uc_password = ''pw3'', uc_is_evaluator = None\<rparr>"

section \<open>Properties\<close>

subsection \<open>Auxiliary facts about queries and tables\<close>

lemmas demo_defs = demo_db_def demo_annotator_def demo_evaluator_def demo_sentence_def
  demo_annotation_def demo_evaluation_def demo_annotation_create_def demo_auth_def
  demo_evaluation_create_def demo_highlight_def demo_highlights_def demo_annotation_update_def

lemma first_None_iff: "first xs = None \<longleftrightarrow> xs = []"
  by (cases xs) (simp_all add: first_def)

lemma first_filter_None: "first (filter P xs) = None \<longleftrightarrow> (\<forall>x\<in>set xs. \<not> P x)"
  by (simp add: first_None_iff filter_empty_conv)

lemma first_filter_Some:
  "first (filter P xs) = Some x \<Longrightarrow> \<exists>ys zs. xs = ys @ x # zs \<and> P x \<and> (\<forall>y\<in>set ys. \<not> P y)"
proof (induction xs)
  case Nil
  then show ?case by (simp add: first_def)
next
  case (Cons a xs)
  show ?case
  proof (cases "P a")
    case True
    with Cons.prems have "a = x" by (simp add: first_def)
    with True show ?thesis by (intro exI[of _ "[]"] exI[of _ xs]) simp
  next
    case False
    with Cons obtain ys zs where "xs = ys @ x # zs" "P x" "\<forall>y\<in>set ys. \<not> P y" by auto
    with False show ?thesis by (intro exI[of _ "a # ys"] exI[of _ zs]) simp
  qed
qed

lemma annotation_exists_iff:
  "annotation_exists d sid uid \<longleftrightarrow>
     (\<exists>a\<in>set (annotations d). a_sentence_id a = sid \<and> a_annotator_id a = uid)"
  by (auto simp: annotation_exists_def filter_empty_conv)

lemma next_id_greater: "i \<in> set ids \<Longrightarrow> i < next_id ids"
  by (induction ids) (auto simp: next_id_def)

lemma outcome_returned:
  "\<not> isl (snd out) \<Longrightarrow> \<exists>cs r. out = (cs, Inr r)"
  by (cases out; cases "snd out") auto

subsection \<open>The next sentence to annotate\<close>

text \<open>
  C1: \<^verbatim>\<open>get_next_sentence\<close> returns a sentence only if it is stored, active, in the
  caller's preferred language and without an annotation by the caller; with the table
  in primary-key order it is the one of least key among those; and it returns nothing
  exactly when no stored sentence passes the filter.
\<close>

theorem next_sentence_spec:
  assumes "sorted_wrt (<) (map s_id (sentences d))"
  shows "(\<forall>s. get_next_sentence d cu = Some s \<longrightarrow>
            s \<in> set (sentences d) \<and> s_is_active s \<and>
            s_target_language s = u_preferred_language cu \<and>
            \<not> (\<exists>a\<in>set (annotations d). a_sentence_id a = s_id s \<and> a_annotator_id a = u_id cu) \<and>
            (\<forall>s'\<in>set (sentences d).
               s_is_active s' \<and> s_target_language s' = u_preferred_language cu \<and>
               \<not> (\<exists>a\<in>set (annotations d). a_sentence_id a = s_id s' \<and> a_annotator_id a = u_id cu)
               \<longrightarrow> s_id s \<le> s_id s')) \<and>
         (get_next_sentence d cu = None \<longleftrightarrow>
            \<not> (\<exists>s\<in>set (sentences d). s_is_active s \<and>
                 s_target_language s = u_preferred_language cu \<and>
                 \<not> (\<exists>a\<in>set (annotations d). a_sentence_id a = s_id s \<and> a_annotator_id a = u_id cu)))"
proof -
  let ?P = "\<lambda>s. (s_is_active s \<and> s_target_language s = u_preferred_language cu) \<and>
                 \<not> annotation_exists d (s_id s) (u_id cu)"
  have eq: "get_next_sentence d cu = first (filter ?P (sentences d))"
    by (simp add: get_next_sentence_def conj_commute)
  have none: "get_next_sentence d cu = None \<longleftrightarrow> (\<forall>s\<in>set (sentences d). \<not> ?P s)"
    unfolding eq by (rule first_filter_None)
  have some: "s \<in> set (sentences d) \<and> ?P s \<and>
      (\<forall>s'\<in>set (sentences d). ?P s' \<longrightarrow> s_id s \<le> s_id s')"
    if "get_next_sentence d cu = Some s" for s
  proof -
    from that obtain ys zs where split: "sentences d = ys @ s # zs" and "?P s"
      and before: "\<forall>y\<in>set ys. \<not> ?P y"
      unfolding eq by (blast dest: first_filter_Some)
    from assms split have "\<forall>z\<in>set zs. s_id s < s_id z"
      by (simp add: sorted_wrt_append)
    with split before \<open>?P s\<close> show ?thesis by auto
  qed
  show ?thesis
    using none some by (auto simp: annotation_exists_iff)
qed

theorem next_sentence_spec_witness:
  "sorted_wrt (<) (map s_id (sentences demo_db)) \<and>
   get_next_sentence demo_db demo_annotator = Some (demo_sentence 4 ''fr'' True) \<and>
   demo_sentence 4 ''fr'' True \<in> set (sentences demo_db) \<and>
   s_is_active (demo_sentence 4 ''fr'' True) \<and>
   s_target_language (demo_sentence 4 ''fr'' True) = u_preferred_language demo_annotator \<and>
   get_next_sentence demo_db (demo_annotator\<lparr>u_preferred_language := ''tagalog''\<rparr>) = None"
proof -
  have srt: "sorted_wrt (<) (map s_id (sentences demo_db))"
    by (simp add: demo_defs)
  have run: "get_next_sentence demo_db demo_annotator = Some (demo_sentence 4 ''fr'' True)"
    by (simp add: get_next_sentence_def annotation_exists_def first_def demo_defs)
  have none: "get_next_sentence demo_db (demo_annotator\<lparr>u_preferred_language := ''tagalog''\<rparr>) = None"
    by (simp add: get_next_sentence_def annotation_exists_def first_def demo_defs)
  show ?thesis
    using next_sentence_spec[OF srt, of demo_annotator] srt run none by simp
qed

subsection \<open>One annotation per sentence and annotator\<close>

lemma map_update_first:
  "(\<And>x. g (f x) = g x) \<Longrightarrow> map g (update_first P f xs) = map g xs"
  by (induction xs) auto

lemma first_filter_None_set: "first (filter P xs) = None \<Longrightarrow> x \<in> set xs \<Longrightarrow> \<not> P x"
  by (simp add: first_filter_None)

lemma pair_set_annotation_fields:
  "a_sentence_id (set_annotation_fields upd a) = a_sentence_id a"
  "a_annotator_id (set_annotation_fields upd a) = a_annotator_id a"
  "a_id (set_annotation_fields upd a) = a_id a"
  by (simp_all add: set_annotation_fields_def)

lemma register_annotations:
  "d' \<in> set (fst (register au d ud)) \<Longrightarrow> annotations d' = annotations d"
  by (auto simp: register_def Let_def split: option.splits list.splits)

lemma create_annotation_pairs:
  assumes "d' \<in> set (fst (create_annotation d cu ad))" "distinct (annotation_pairs d)"
  shows "distinct (annotation_pairs d')"
proof (cases "first (filter (\<lambda>a. a_sentence_id a = ac_sentence_id ad \<and>
                               a_annotator_id a = u_id cu) (annotations d))")
  case None
  then have fresh: "(ac_sentence_id ad, u_id cu) \<notin> set (annotation_pairs d)"
    by (auto simp: annotation_pairs_def first_filter_None)
  from assms(1) None have "annotation_pairs d' = annotation_pairs d @ [(ac_sentence_id ad, u_id cu)]"
    by (auto simp: create_annotation_def Let_def annotation_pairs_def new_annotation_def
        split: option.splits list.splits)
  with fresh assms(2) show ?thesis by simp
next
  case (Some a)
  with assms(1) show ?thesis by (simp add: create_annotation_def)
qed

lemma create_legacy_annotation_pairs:
  assumes "d' \<in> set (fst (create_legacy_annotation d cu ad))" "distinct (annotation_pairs d)"
  shows "distinct (annotation_pairs d')"
proof (cases "first (filter (\<lambda>a. a_sentence_id a = ac_sentence_id ad \<and>
                               a_annotator_id a = u_id cu) (annotations d))")
  case None
  then have fresh: "(ac_sentence_id ad, u_id cu) \<notin> set (annotation_pairs d)"
    by (auto simp: annotation_pairs_def first_filter_None)
  from assms(1) None have "annotation_pairs d' = annotation_pairs d @ [(ac_sentence_id ad, u_id cu)]"
    by (auto simp: create_legacy_annotation_def Let_def annotation_pairs_def new_annotation_def)
  with fresh assms(2) show ?thesis by simp
next
  case (Some a)
  with assms(1) show ?thesis by (simp add: create_legacy_annotation_def)
qed

lemma update_annotation_pairs:
  "d' \<in> set (fst (update_annotation d cu i upd)) \<Longrightarrow> annotation_pairs d' = annotation_pairs d"
  by (auto simp: update_annotation_def Let_def annotation_pairs_def map_update_first
      pair_set_annotation_fields split: option.splits)

lemma create_evaluation_pairs:
  "d' \<in> set (fst (create_evaluation d cu ed)) \<Longrightarrow> annotation_pairs d' = annotation_pairs d"
  by (auto simp: create_evaluation_def Let_def annotation_pairs_def map_update_first
      split: option.splits)

lemma other_calls_annotations:
  "d' \<in> set (fst (mark_guidelines_seen d cu)) \<Longrightarrow> annotations d' = annotations d"
  "d' \<in> set (fst (create_sentence d sd)) \<Longrightarrow> annotations d' = annotations d"
  "d' \<in> set (fst (bulk_create_sentences d sds)) \<Longrightarrow> annotations d' = annotations d"
  "d' \<in> set (fst (toggle_user_evaluator_role d uid)) \<Longrightarrow> annotations d' = annotations d"
  "d' \<in> set (fst (update_evaluation d cu i eu)) \<Longrightarrow> annotations d' = annotations d"
  "d' \<in> set (fst (update_user_languages d cu ls)) \<Longrightarrow> annotations d' = annotations d"
  by (auto simp: mark_guidelines_seen_def create_sentence_def bulk_create_sentences_def
      toggle_user_evaluator_role_def update_evaluation_def update_user_languages_def Let_def
      split: option.splits list.splits)

lemma commits_annotation_pairs:
  assumes "d' \<in> set (commits_of au d cu call)" "distinct (annotation_pairs d)"
  shows "distinct (annotation_pairs d')"
proof (cases call)
  case (CreateAnnotation ad)
  with assms show ?thesis by (simp add: create_annotation_pairs)
next
  case (CreateLegacyAnnotation ad)
  with assms show ?thesis by (simp add: create_legacy_annotation_pairs)
next
  case (UpdateAnnotation i upd)
  with assms show ?thesis by (simp add: update_annotation_pairs)
next
  case (CreateEvaluation ed)
  with assms show ?thesis by (simp add: create_evaluation_pairs)
qed (use assms in \<open>auto simp: annotation_pairs_def register_annotations other_calls_annotations\<close>)

text \<open>
  C2: when the caller has an annotation of the sentence, \<^verbatim>\<open>create_annotation\<close> (and
  the legacy handler) raises the 400 error and commits nothing, so the state is
  unchanged; the empty database has no two annotations of one (sentence, annotator)
  pair, and no state that a call commits has, when the state before had none.
\<close>

theorem duplicate_annotation_rejected:
  "((\<exists>a\<in>set (annotations d). a_sentence_id a = ac_sentence_id ad \<and> a_annotator_id a = u_id cu) \<longrightarrow>
      create_annotation d cu ad =
        ([], Inl (HTTPException 400 ''You have already annotated this sentence'')) \<and>
      final_db d (create_annotation d cu ad) = d) \<and>
   ((\<exists>a\<in>set (annotations d). a_sentence_id a = ac_sentence_id lad \<and> a_annotator_id a = u_id cu) \<longrightarrow>
      create_legacy_annotation d cu lad =
        ([], Inl (HTTPException 400 ''You have already annotated this sentence''))) \<and>
   distinct (annotation_pairs empty_db) \<and>
   (distinct (annotation_pairs d) \<longrightarrow>
      (\<forall>d'\<in>set (commits_of au d cu call). distinct (annotation_pairs d')))"
proof -
  have rej: "\<exists>x. first (filter P xs) = Some x" if "\<exists>a\<in>set xs. P a" for P and xs :: "annotation list"
    using that first_filter_None[of P xs] by (cases "first (filter P xs)") auto
  have 1: "create_annotation d cu ad =
        ([], Inl (HTTPException 400 ''You have already annotated this sentence''))"
    if "\<exists>a\<in>set (annotations d). a_sentence_id a = ac_sentence_id ad \<and> a_annotator_id a = u_id cu"
    using rej[OF that] by (auto simp: create_annotation_def)
  have 2: "create_legacy_annotation d cu lad =
        ([], Inl (HTTPException 400 ''You have already annotated this sentence''))"
    if "\<exists>a\<in>set (annotations d). a_sentence_id a = ac_sentence_id lad \<and> a_annotator_id a = u_id cu"
    using rej[OF that] by (auto simp: create_legacy_annotation_def)
  have 3: "distinct (annotation_pairs empty_db)"
    by (simp add: annotation_pairs_def empty_db_def)
  show ?thesis
    using 1 2 3 commits_annotation_pairs[of _ au d cu call] by (simp add: final_db_def)
qed

theorem duplicate_annotation_rejected_witness:
  "create_annotation demo_db demo_annotator (demo_annotation_create 1 None) =
     ([], Inl (HTTPException 400 ''You have already annotated this sentence'')) \<and>
   distinct (annotation_pairs demo_db) \<and>
   distinct (annotation_pairs
     (exec demo_auth demo_db demo_annotator (CreateAnnotation (demo_annotation_create 5 None))))"
proof -
  have pre: "\<exists>a\<in>set (annotations demo_db).
      a_sentence_id a = ac_sentence_id (demo_annotation_create 1 None) \<and>
      a_annotator_id a = u_id demo_annotator"
    by (simp add: demo_defs)
  have inv: "distinct (annotation_pairs demo_db)"
    by (simp add: annotation_pairs_def demo_defs)
  have mem: "exec demo_auth demo_db demo_annotator (CreateAnnotation (demo_annotation_create 5 None))
      \<in> set (commits_of demo_auth demo_db demo_annotator
                (CreateAnnotation (demo_annotation_create 5 None)))"
    by (simp add: exec_def create_annotation_def first_def Let_def demo_defs)
  show ?thesis
    using duplicate_annotation_rejected[of demo_db "demo_annotation_create 1 None" demo_annotator
        undefined demo_auth "CreateAnnotation (demo_annotation_create 5 None)"]
      pre inv mem by blast
qed

subsection \<open>Evaluating an annotation\<close>

lemma update_first_distinct:
  assumes "distinct (map g xs)" "\<And>x. P x \<longleftrightarrow> g x = k"
  shows "update_first P f xs = map (\<lambda>x. if g x = k then f x else x) xs"
  using assms(1)
proof (induction xs)
  case Nil
  then show ?case by simp
next
  case (Cons x xs)
  show ?case
  proof (cases "g x = k")
    case True
    with Cons.prems have "\<forall>y\<in>set xs. g y \<noteq> k" by (auto simp: image_iff)
    then have "map (\<lambda>x. if g x = k then f x else x) xs = xs"
      by (simp add: map_idI)
    with True assms(2) show ?thesis by simp
  next
    case False
    with Cons assms(2) show ?thesis by simp
  qed
qed

text \<open>
  C3: when \<^verbatim>\<open>create_evaluation\<close> returns for a stored annotation whose status is
  "completed" (ids being a primary key), the annotations after the call are those
  before it with the status of that one annotation set to "reviewed"; the row with
  status "completed" is gone, and the response carries the changed row.
\<close>

theorem create_evaluation_marks_reviewed:
  assumes "a \<in> set (annotations d)"
    and "a_id a = ec_annotation_id ed"
    and "a_annotation_status a = Some ''completed''"
    and "distinct (map a_id (annotations d))"
    and "create_evaluation d cu ed = (cs, Inr r)"
  shows "annotations (final_db d (create_evaluation d cu ed)) =
           map (\<lambda>x. if a_id x = a_id a then x\<lparr>a_annotation_status := Some ''reviewed''\<rparr> else x)
             (annotations d) \<and>
         a\<lparr>a_annotation_status := Some ''reviewed''\<rparr>
           \<in> set (annotations (final_db d (create_evaluation d cu ed))) \<and>
         a \<notin> set (annotations (final_db d (create_evaluation d cu ed))) \<and>
         fst (snd r) = a\<lparr>a_annotation_status := Some ''reviewed''\<rparr>"
proof -
  let ?upd = "\<lambda>x. x\<lparr>a_annotation_status := Some ''reviewed''\<rparr>"
  let ?new = "map (\<lambda>x. if a_id x = a_id a then ?upd x else x) (annotations d)"
  from assms(5) have none: "first (filter (\<lambda>e. e_annotation_id e = ec_annotation_id ed \<and>
      e_evaluator_id e = u_id cu) (evaluations d)) = None"
    by (auto simp: create_evaluation_def split: option.splits)
  from assms(1,2) have "first (filter (\<lambda>x. a_id x = ec_annotation_id ed) (annotations d)) \<noteq> None"
    by (auto simp: first_filter_None)
  then obtain b where b: "first (filter (\<lambda>x. a_id x = ec_annotation_id ed) (annotations d)) = Some b"
    by auto
  then have "b \<in> set (annotations d)" "a_id b = a_id a"
    using assms(2) by (auto dest!: first_filter_Some)
  with assms(1,4) have ba: "b = a"
    by (meson distinct_map inj_onD)
  have upd: "update_first (\<lambda>x. a_id x = ec_annotation_id ed) ?upd (annotations d) = ?new"
    using update_first_distinct[OF assms(4), of "\<lambda>x. a_id x = ec_annotation_id ed" "a_id a" ?upd] assms(2)
    by simp
  have fin: "annotations (final_db d (create_evaluation d cu ed)) = ?new"
    using none b upd by (simp add: create_evaluation_def final_db_def Let_def)
  have r: "fst (snd r) = ?upd a"
    using assms(5) none b ba by (auto simp: create_evaluation_def Let_def)
  have mem: "?upd a \<in> set ?new"
    using assms(1) by (auto simp: image_iff intro!: bexI[of _ a])
  have "x \<noteq> a" if "x \<in> set ?new" for x
  proof -
    from that obtain y where y: "y \<in> set (annotations d)"
      and x: "x = (if a_id y = a_id a then ?upd y else y)" by auto
    show ?thesis
    proof (cases "a_id y = a_id a")
      case True
      with x have "a_annotation_status x = Some ''reviewed''" by simp
      with assms(3) show ?thesis by auto
    next
      case False
      with x show ?thesis by auto
    qed
  qed
  then have "a \<notin> set ?new" by blast
  with fin r mem show ?thesis by simp
qed

theorem create_evaluation_marks_reviewed_witness:
  "demo_annotation 1 1 1 ''completed'' \<in> set (annotations demo_db) \<and>
   \<not> isl (snd (create_evaluation demo_db demo_evaluator (demo_evaluation_create 1))) \<and>
   annotations (final_db demo_db
       (create_evaluation demo_db demo_evaluator (demo_evaluation_create 1))) =
     [demo_annotation 1 1 1 ''reviewed'', demo_annotation 2 4 2 ''completed'',
      demo_annotation 3 3 1 ''reviewed'', demo_annotation 4 5 2 ''completed'']"
proof -
  let ?a = "demo_annotation 1 1 1 ''completed''"
  have 1: "?a \<in> set (annotations demo_db)"
    and 2: "a_id ?a = ec_annotation_id (demo_evaluation_create 1)"
    and 3: "a_annotation_status ?a = Some ''completed''"
    and 4: "distinct (map a_id (annotations demo_db))"
    by (simp_all add: demo_defs)
  have ok: "\<not> isl (snd (create_evaluation demo_db demo_evaluator (demo_evaluation_create 1)))"
    by (simp add: create_evaluation_def first_def Let_def demo_defs)
  then obtain cs r where
    5: "create_evaluation demo_db demo_evaluator (demo_evaluation_create 1) = (cs, Inr r)"
    by (blast dest: outcome_returned)
  have "map (\<lambda>x. if a_id x = a_id ?a then x\<lparr>a_annotation_status := Some ''reviewed''\<rparr> else x)
          (annotations demo_db) =
        [demo_annotation 1 1 1 ''reviewed'', demo_annotation 2 4 2 ''completed'',
         demo_annotation 3 3 1 ''reviewed'', demo_annotation 4 5 2 ''completed'']"
    by (simp add: demo_defs)
  with create_evaluation_marks_reviewed[OF 1 2 3 4 5] 1 ok show ?thesis
    by simp
qed

subsection \<open>Deduplicated highlights\<close>

lemma dedup_loop_keys:
  assumes "seen = set (map key_of uq)" "distinct (map key_of uq)"
  shows "distinct (map key_of (dedup_loop hs seen uq)) \<and>
         set (map key_of (dedup_loop hs seen uq)) = set (map key_of uq) \<union> set (map key_of hs)"
  using assms
proof (induction hs arbitrary: seen uq)
  case Nil
  then show ?case by simp
next
  case (Cons h hs)
  show ?case
  proof (cases "key_of h \<in> seen")
    case True
    with Cons.IH[of seen uq] Cons.prems show ?thesis by auto
  next
    case False
    with Cons.IH[of "insert (key_of h) seen" "uq @ [h]"] Cons.prems show ?thesis by auto
  qed
qed

lemma unique_highlights_keys:
  "distinct (map key_of (unique_highlights hs))"
  "set (map key_of (unique_highlights hs)) = set (map key_of hs)"
  using dedup_loop_keys[of "{}" "[]" hs] by (simp_all add: unique_highlights_def)

lemma add_highlights_append:
  "\<exists>new. add_highlights aid hs t = t @ new \<and> map stored_key new = map key_of hs \<and>
         (\<forall>h\<in>set new. h_annotation_id h = aid)"
proof (induction hs arbitrary: t)
  case Nil
  then show ?case by simp
next
  case (Cons h hs)
  let ?row = "\<lparr>h_id = next_id (map h_id t), h_annotation_id = aid,
               h_highlighted_text = hc_highlighted_text h, h_start_index = hc_start_index h,
               h_end_index = hc_end_index h, h_text_type = hc_text_type h,
               h_comment = hc_comment h\<rparr>"
  from Cons[of "t @ [?row]"] obtain new where
    new: "add_highlights aid hs (t @ [?row]) = (t @ [?row]) @ new"
      "map stored_key new = map key_of hs" "\<forall>h\<in>set new. h_annotation_id h = aid"
    by blast
  have row: "stored_key ?row = key_of h" "h_annotation_id ?row = aid"
    by (simp_all add: stored_key_def key_of_def)
  show ?case
    by (rule exI[of _ "?row # new"]) (use new row in simp)
qed

lemma count_distinct:
  "distinct xs \<Longrightarrow> length (filter (\<lambda>x. x = k) xs) = (if k \<in> set xs then 1 else 0)"
  by (induction xs) auto

lemma count_by_key:
  assumes "distinct (map g xs)"
  shows "length (filter (\<lambda>x. g x = k) xs) = (if k \<in> set (map g xs) then 1 else 0)"
proof -
  have "length (filter (\<lambda>x. g x = k) xs) = length (filter (\<lambda>y. y = k) (map g xs))"
    by (induction xs) auto
  with count_distinct[OF assms, of k] show ?thesis by simp
qed

lemma stored_highlights_count:
  assumes "map stored_key new = map key_of (unique_highlights hs)"
  shows "length (filter (\<lambda>h. stored_key h = k) new) = (if k \<in> set (map key_of hs) then 1 else 0)"
proof -
  from assms have "distinct (map stored_key new)"
    by (simp add: unique_highlights_keys(1))
  from count_by_key[OF this, of k] assms show ?thesis
    by (simp only: unique_highlights_keys(2))
qed

lemma create_annotation_highlights:
  assumes ref: "\<forall>h\<in>set (text_highlights d). \<exists>a\<in>set (annotations d). a_id a = h_annotation_id h"
    and hs: "ac_highlights ad = Some hs"
    and run: "create_annotation d cu ad = (cs, Inr (a, stored))"
  shows "stored = highlights_of (final_db d (create_annotation d cu ad)) (a_id a) \<and>
         a \<in> set (annotations (final_db d (create_annotation d cu ad))) \<and>
         (\<forall>k. length (filter (\<lambda>h. stored_key h = k) stored) =
                (if k \<in> set (map key_of hs) then 1 else 0))"
proof -
  let ?i = "next_id (map a_id (annotations d))"
  from run have none: "first (filter (\<lambda>a. a_sentence_id a = ac_sentence_id ad \<and>
      a_annotator_id a = u_id cu) (annotations d)) = None"
    by (auto simp: create_annotation_def split: option.splits)
  have old: "filter (\<lambda>h. h_annotation_id h = ?i) (text_highlights d) = []"
  proof -
    have "h_annotation_id h \<noteq> ?i" if "h \<in> set (text_highlights d)" for h
    proof -
      from ref that obtain b where "b \<in> set (annotations d)" "a_id b = h_annotation_id h" by blast
      then have "h_annotation_id h \<in> set (map a_id (annotations d))" by force
      from next_id_greater[OF this] show ?thesis by simp
    qed
    then show ?thesis by (simp add: filter_empty_conv)
  qed
  from add_highlights_append[of ?i "unique_highlights hs" "text_highlights d"] obtain new where
    new: "add_highlights ?i (unique_highlights hs) (text_highlights d) = text_highlights d @ new"
      "map stored_key new = map key_of (unique_highlights hs)"
      "\<forall>h\<in>set new. h_annotation_id h = ?i"
    by blast
  have aid: "a_id a = ?i" and amem: "a \<in> set (annotations (final_db d (create_annotation d cu ad)))"
    using run none
    by (auto simp: create_annotation_def Let_def new_annotation_def final_db_def
        split: option.splits list.splits)
  have stored: "stored = highlights_of (final_db d (create_annotation d cu ad)) (a_id a)"
    using run by (auto simp: create_annotation_def Let_def final_db_def split: option.splits)
  have "highlights_of (final_db d (create_annotation d cu ad)) ?i = new"
  proof (cases hs)
    case Nil
    with new have "new = []" by (simp add: unique_highlights_def)
    with Nil hs none old show ?thesis
      by (simp add: create_annotation_def Let_def final_db_def highlights_of_def)
  next
    case (Cons h rest)
    have "filter (\<lambda>h. h_annotation_id h = ?i) new = new"
      using new(3) by (simp add: filter_id_conv)
    with Cons hs none old new(1) show ?thesis
      by (simp add: create_annotation_def Let_def final_db_def highlights_of_def
          new_annotation_def)
  qed
  with stored aid have "stored = new" by simp
  with stored amem stored_highlights_count[OF new(2)] show ?thesis by simp
qed

lemma update_annotation_highlights:
  assumes hs: "au_highlights upd = Some hs"
    and run: "update_annotation d cu i upd = (cs, Inr (a, stored))"
  shows "stored = highlights_of (final_db d (update_annotation d cu i upd)) i \<and> a_id a = i \<and>
         (\<forall>k. length (filter (\<lambda>h. stored_key h = k) stored) =
                (if k \<in> set (map key_of hs) then 1 else 0))"
proof -
  let ?rest = "filter (\<lambda>h. h_annotation_id h \<noteq> i) (text_highlights d)"
  from run obtain b where b: "first (filter (\<lambda>a. a_id a = i \<and> a_annotator_id a = u_id cu)
      (annotations d)) = Some b"
    by (auto simp: update_annotation_def split: option.splits)
  then have bid: "a_id b = i" by (auto dest!: first_filter_Some)
  from add_highlights_append[of i "unique_highlights hs" ?rest] obtain new where
    new: "add_highlights i (unique_highlights hs) ?rest = ?rest @ new"
      "map stored_key new = map key_of (unique_highlights hs)"
      "\<forall>h\<in>set new. h_annotation_id h = i"
    by blast
  have "filter (\<lambda>h. h_annotation_id h = i) new = new"
    using new(3) by (simp add: filter_id_conv)
  then have "highlights_of (final_db d (update_annotation d cu i upd)) i = new"
    using b hs new(1)
    by (simp add: update_annotation_def Let_def final_db_def highlights_of_def)
  moreover have "stored = highlights_of (final_db d (update_annotation d cu i upd)) i"
    using run b by (auto simp: update_annotation_def Let_def final_db_def)
  moreover have "a_id a = i"
    using run b bid by (auto simp: update_annotation_def Let_def pair_set_annotation_fields)
  ultimately show ?thesis
    using stored_highlights_count[OF new(2)] by simp
qed

text \<open>
  C4: for a list of highlights submitted with \<^verbatim>\<open>create_annotation\<close> (in a
  database whose highlights all belong to stored annotations) or with
  \<^verbatim>\<open>update_annotation\<close>, the highlights stored for the resulting annotation, which
  are those the response carries, hold for every key
  (start_index, end_index, text_type, comment) exactly one row when the key occurs in
  the submitted list and none otherwise.
\<close>

theorem highlights_deduplicated:
  "((\<forall>h\<in>set (text_highlights d). \<exists>a\<in>set (annotations d). a_id a = h_annotation_id h) \<longrightarrow>
    ac_highlights ad = Some hs \<longrightarrow>
    create_annotation d cu ad = (cs, Inr (a, stored)) \<longrightarrow>
      stored = highlights_of (final_db d (create_annotation d cu ad)) (a_id a) \<and>
      a \<in> set (annotations (final_db d (create_annotation d cu ad))) \<and>
      (\<forall>k. length (filter (\<lambda>h. stored_key h = k) stored) =
             (if k \<in> set (map key_of hs) then 1 else 0))) \<and>
   (au_highlights upd = Some hs' \<longrightarrow>
    update_annotation d cu' i upd = (cs', Inr (a', stored')) \<longrightarrow>
      stored' = highlights_of (final_db d (update_annotation d cu' i upd)) i \<and> a_id a' = i \<and>
      (\<forall>k. length (filter (\<lambda>h. stored_key h = k) stored') =
             (if k \<in> set (map key_of hs') then 1 else 0)))"
  using create_annotation_highlights[of d ad hs cu cs a stored]
    update_annotation_highlights[of upd hs' d cu' i cs' a' stored']
  by blast

theorem highlights_deduplicated_witness:
  "map stored_key (snd (projr (snd
      (create_annotation demo_db demo_annotator (demo_annotation_create 5 (Some demo_highlights)))))) =
     [(0, 2, ''machine'', ''article''), (3, 7, ''machine'', ''noun''),
      (0, 2, ''machine'', ''casing'')] \<and>
   length (filter (\<lambda>h. stored_key h = (0, 2, ''machine'', ''article'')) (snd (projr (snd
      (create_annotation demo_db demo_annotator (demo_annotation_create 5 (Some demo_highlights))))))) = 1 \<and>
   map stored_key (snd (projr (snd
      (update_annotation demo_db demo_annotator 1 (demo_annotation_update (Some demo_highlights)))))) =
     [(0, 2, ''machine'', ''article''), (3, 7, ''machine'', ''noun''),
      (0, 2, ''machine'', ''casing'')] \<and>
   length (filter (\<lambda>h. stored_key h = (0, 2, ''machine'', ''article'')) (snd (projr (snd
      (update_annotation demo_db demo_annotator 1 (demo_annotation_update (Some demo_highlights))))))) = 1"
proof -
  let ?c = "create_annotation demo_db demo_annotator (demo_annotation_create 5 (Some demo_highlights))"
  let ?u = "update_annotation demo_db demo_annotator 1 (demo_annotation_update (Some demo_highlights))"
  let ?k = "(0::int, 2::int, ''machine'', ''article'')"
  have ref: "\<forall>h\<in>set (text_highlights demo_db). \<exists>a\<in>set (annotations demo_db). a_id a = h_annotation_id h"
    by (simp add: demo_defs)
  have hs: "ac_highlights (demo_annotation_create 5 (Some demo_highlights)) = Some demo_highlights"
    "au_highlights (demo_annotation_update (Some demo_highlights)) = Some demo_highlights"
    by (simp_all add: demo_defs)
  have "\<not> isl (snd ?c)"
    by (simp add: create_annotation_def first_def Let_def demo_defs)
  then obtain cs a stored where c: "?c = (cs, Inr (a, stored))"
    by (metis outcome_returned surj_pair)
  have "\<not> isl (snd ?u)"
    by (simp add: update_annotation_def first_def Let_def demo_defs)
  then obtain cs' a' stored' where u: "?u = (cs', Inr (a', stored'))"
    by (metis outcome_returned surj_pair)
  have kc: "map stored_key (snd (projr (snd ?c))) =
      [(0, 2, ''machine'', ''article''), (3, 7, ''machine'', ''noun''), (0, 2, ''machine'', ''casing'')]"
    by (simp add: create_annotation_def first_def Let_def demo_defs unique_highlights_def
        key_of_def highlights_of_def stored_key_def next_id_def new_annotation_def)
  have ku: "map stored_key (snd (projr (snd ?u))) =
      [(0, 2, ''machine'', ''article''), (3, 7, ''machine'', ''noun''), (0, 2, ''machine'', ''casing'')]"
    by (simp add: update_annotation_def first_def Let_def demo_defs unique_highlights_def
        key_of_def highlights_of_def stored_key_def next_id_def)
  have mem: "?k \<in> set (map key_of demo_highlights)"
    by (simp add: demo_defs key_of_def)
  from highlights_deduplicated[of demo_db "demo_annotation_create 5 (Some demo_highlights)"
      demo_highlights demo_annotator cs a stored "demo_annotation_update (Some demo_highlights)"
      demo_highlights demo_annotator 1 cs' a' stored'] ref hs c u mem
  have "length (filter (\<lambda>h. stored_key h = ?k) stored) = 1"
    and "length (filter (\<lambda>h. stored_key h = ?k) stored') = 1"
    by auto
  with c u kc ku show ?thesis by simp
qed

subsection \<open>Pending evaluations\<close>

lemma evaluated_annotation_ids_iff:
  "i \<in> set (evaluated_annotation_ids d cu) \<longleftrightarrow>
     (\<exists>e\<in>set (evaluations d). e_annotation_id e = i \<and> e_evaluator_id e = u_id cu)"
  by (auto simp: evaluated_annotation_ids_def)

text \<open>
  C7: \<^verbatim>\<open>get_pending_evaluations\<close> returns, in table order, the annotations whose
  status is "completed" and for which no evaluation by the caller is stored, after
  dropping \<open>skip\<close> of them and keeping at most \<open>limit\<close>; every returned annotation
  is stored, completed and not evaluated by the caller, and comes with its highlights.
\<close>

theorem pending_evaluations_spec:
  "map fst (get_pending_evaluations skip limit d cu) =
     take limit (drop skip
       (filter (\<lambda>a. a_annotation_status a = Some ''completed'' \<and>
                     \<not> (\<exists>e\<in>set (evaluations d).
                          e_annotation_id e = a_id a \<and> e_evaluator_id e = u_id cu))
          (annotations d))) \<and>
   (\<forall>r\<in>set (get_pending_evaluations skip limit d cu).
      fst r \<in> set (annotations d) \<and> a_annotation_status (fst r) = Some ''completed'' \<and>
      \<not> (\<exists>e\<in>set (evaluations d).
           e_annotation_id e = a_id (fst r) \<and> e_evaluator_id e = u_id cu) \<and>
      snd r = highlights_of d (a_id (fst r))) \<and>
   length (get_pending_evaluations skip limit d cu) \<le> limit"
proof -
  let ?P = "\<lambda>a. a_annotation_status a = Some ''completed'' \<and>
               \<not> (\<exists>e\<in>set (evaluations d). e_annotation_id e = a_id a \<and> e_evaluator_id e = u_id cu)"
  let ?page = "take limit (drop skip (filter ?P (annotations d)))"
  have res: "get_pending_evaluations skip limit d cu =
      map (\<lambda>a. (a, highlights_of d (a_id a))) ?page"
    by (simp add: get_pending_evaluations_def offset_limit_def evaluated_annotation_ids_iff)
  have sub: "set ?page \<subseteq> set (filter ?P (annotations d))"
    by (meson set_take_subset set_drop_subset subset_trans)
  have 1: "map fst (get_pending_evaluations skip limit d cu) = ?page"
    unfolding res by (simp add: comp_def)
  have 2: "\<forall>r\<in>set (get_pending_evaluations skip limit d cu).
      fst r \<in> set (annotations d) \<and> ?P (fst r) \<and> snd r = highlights_of d (a_id (fst r))"
    unfolding res using sub by auto
  have 3: "length (get_pending_evaluations skip limit d cu) \<le> limit"
    unfolding res by simp
  from 1 2 3 show ?thesis by simp
qed

theorem pending_evaluations_spec_witness:
  "map fst (get_pending_evaluations 0 50 demo_db demo_annotator) =
     [demo_annotation 1 1 1 ''completed'', demo_annotation 4 5 2 ''completed''] \<and>
   map fst (get_pending_evaluations 1 1 demo_db demo_annotator) =
     [demo_annotation 4 5 2 ''completed''] \<and>
   map fst (get_pending_evaluations 0 50 demo_db demo_evaluator) =
     [demo_annotation 1 1 1 ''completed''] \<and>
   length (get_pending_evaluations 1 1 demo_db demo_annotator) \<le> 1"
proof -
  have run:
    "map fst (get_pending_evaluations 0 50 demo_db demo_annotator) =
       [demo_annotation 1 1 1 ''completed'', demo_annotation 4 5 2 ''completed'']"
    "map fst (get_pending_evaluations 1 1 demo_db demo_annotator) =
       [demo_annotation 4 5 2 ''completed'']"
    "map fst (get_pending_evaluations 0 50 demo_db demo_evaluator) =
       [demo_annotation 1 1 1 ''completed'']"
    by (simp_all add: get_pending_evaluations_def offset_limit_def evaluated_annotation_ids_def
        demo_defs)
  from pending_evaluations_spec[of 1 1 demo_db demo_annotator]
  have "length (get_pending_evaluations 1 1 demo_db demo_annotator) \<le> 1"
    by (rule conjunct2[OF conjunct2])
  with run show ?thesis by blast
qed

subsection \<open>The preferred language of a new user\<close>

lemma register_returned:
  assumes "register au d ud = (cs, Inr tok)"
  shows "users (final_db d (register au d ud)) =
           users d @ [new_user au (next_id (map u_id (users d))) ud] \<and>
         token_user tok =
           from_orm (final_db d (register au d ud)) (new_user au (next_id (map u_id (users d))) ud)"
  using assms
  by (auto simp: register_def Let_def final_db_def split: option.splits list.splits)

text \<open>
  C8: when a registration whose payload has no preferred_language succeeds, one user
  row is added and the response describes it; its preferred_language is the first
  element of the payload's languages when that list is not empty, and "tagalog" when
  the list is empty or absent.
\<close>

theorem register_default_language:
  assumes "uc_preferred_language ud = None"
    and "register au d ud = (cs, Inr tok)"
  shows "\<exists>u. users (final_db d (register au d ud)) = users d @ [u] \<and>
           ur_id (token_user tok) = u_id u \<and>
           ur_preferred_language (token_user tok) = u_preferred_language u \<and>
           (\<forall>l ls. uc_languages ud = Some (l # ls) \<longrightarrow> u_preferred_language u = l) \<and>
           (uc_languages ud = Some [] \<or> uc_languages ud = None \<longrightarrow>
              u_preferred_language u = ''tagalog'')"
proof -
  let ?u = "new_user au (next_id (map u_id (users d))) ud"
  have "u_preferred_language ?u = choose_preferred_language None (uc_languages ud)"
    using assms(1) by (simp add: new_user_def)
  then have "(\<forall>l ls. uc_languages ud = Some (l # ls) \<longrightarrow> u_preferred_language ?u = l) \<and>
      (uc_languages ud = Some [] \<or> uc_languages ud = None \<longrightarrow> u_preferred_language ?u = ''tagalog'')"
    by (auto simp: choose_preferred_language_def)
  with register_returned[OF assms(2)] show ?thesis
    by (intro exI[of _ ?u]) (simp add: from_orm_def)
qed

theorem register_default_language_witness:
  "\<not> isl (snd (register demo_auth demo_db (demo_user_create None (Some [''cebuano'', ''fr''])))) \<and>
   map u_preferred_language (users (final_db demo_db
      (register demo_auth demo_db (demo_user_create None (Some [''cebuano'', ''fr'']))))) =
     [''fr'', ''fr'', ''cebuano''] \<and>
   \<not> isl (snd (register demo_auth demo_db (demo_user_create None (Some [])))) \<and>
   map u_preferred_language (users (final_db demo_db
      (register demo_auth demo_db (demo_user_create None (Some []))))) =
     [''fr'', ''fr'', ''tagalog''] \<and>
   map u_preferred_language (users (final_db demo_db
      (register demo_auth demo_db (demo_user_create None None)))) =
     [''fr'', ''fr'', ''tagalog'']"
proof -
  let ?a = "demo_user_create None (Some [''cebuano'', ''fr''])"
  let ?b = "demo_user_create None (Some [])"
  let ?c = "demo_user_create None None"
  have ok: "\<not> isl (snd (register demo_auth demo_db ?a))" "\<not> isl (snd (register demo_auth demo_db ?b))"
    "\<not> isl (snd (register demo_auth demo_db ?c))"
    by (simp_all add: register_def first_def Let_def demo_defs demo_user_create_def)
  from ok(1) obtain ca ta where ra: "register demo_auth demo_db ?a = (ca, Inr ta)"
    by (blast dest: outcome_returned)
  from ok(2) obtain cb tb where rb: "register demo_auth demo_db ?b = (cb, Inr tb)"
    by (blast dest: outcome_returned)
  from ok(3) obtain cc tc where rc: "register demo_auth demo_db ?c = (cc, Inr tc)"
    by (blast dest: outcome_returned)
  note run = ra rb rc
  have pl: "uc_preferred_language ?a = None" "uc_preferred_language ?b = None"
    "uc_preferred_language ?c = None"
    and ls: "uc_languages ?a = Some [''cebuano'', ''fr'']" "uc_languages ?b = Some []"
    "uc_languages ?c = None"
    by (simp_all add: demo_user_create_def)
  have old: "map u_preferred_language (users demo_db) = [''fr'', ''fr'']"
    by (simp add: demo_defs)
  from register_default_language[OF pl(1) run(1)] ls(1) old
  have a: "map u_preferred_language (users (final_db demo_db (register demo_auth demo_db ?a))) =
      [''fr'', ''fr'', ''cebuano'']"
    by auto
  from register_default_language[OF pl(2) run(2)] ls(2) old
  have b: "map u_preferred_language (users (final_db demo_db (register demo_auth demo_db ?b))) =
      [''fr'', ''fr'', ''tagalog'']"
    by auto
  from register_default_language[OF pl(3) run(3)] ls(3) old
  have c: "map u_preferred_language (users (final_db demo_db (register demo_auth demo_db ?c))) =
      [''fr'', ''fr'', ''tagalog'']"
    by auto
  from ok a b c show ?thesis by blast
qed

subsection \<open>Toggling the evaluator role\<close>

lemma update_first_twice:
  assumes "\<And>x. P (f x) = P x" "\<And>x. f (f x) = x"
  shows "update_first P f (update_first P f xs) = xs"
  by (induction xs) (auto simp: assms)

lemma first_filter_update_first:
  assumes "\<And>x. P (f x) = P x"
  shows "first (filter P (update_first P f xs)) = map_option f (first (filter P xs))"
  by (induction xs) (auto simp: assms first_def)

text \<open>
  C9: for a stored user (ids being a primary key) \<^verbatim>\<open>toggle_user_evaluator_role\<close>
  returns, and commits once the database in which that user's \<^verbatim>\<open>is_evaluator\<close> is
  negated and every other field of every user, and every other table, is as before;
  the response shows the negated flag; and toggling the same user once more gives
  back the first database.
\<close>

theorem toggle_evaluator_involution:
  assumes "u \<in> set (users d)"
    and "distinct (map u_id (users d))"
  shows "(\<exists>r. toggle_user_evaluator_role d (u_id u) =
            ([d\<lparr>users := map (\<lambda>x. if u_id x = u_id u
                                  then x\<lparr>u_is_evaluator := \<not> u_is_evaluator x\<rparr> else x)
                             (users d)\<rparr>], Inr r) \<and>
            ur_is_evaluator r = (\<not> u_is_evaluator u)) \<and>
         final_db (final_db d (toggle_user_evaluator_role d (u_id u)))
           (toggle_user_evaluator_role (final_db d (toggle_user_evaluator_role d (u_id u))) (u_id u))
           = d"
proof -
  let ?f = "\<lambda>x. x\<lparr>u_is_evaluator := \<not> u_is_evaluator x\<rparr>"
  let ?P = "\<lambda>x. u_id x = u_id u"
  from assms(1) have "first (filter ?P (users d)) \<noteq> None"
    by (auto simp: first_filter_None)
  then obtain v where v: "first (filter ?P (users d)) = Some v" by auto
  then have "v \<in> set (users d)" "u_id v = u_id u"
    by (auto dest!: first_filter_Some)
  with assms have vu: "v = u" by (meson distinct_map inj_onD)
  have upd: "update_first ?P ?f (users d) = map (\<lambda>x. if u_id x = u_id u then ?f x else x) (users d)"
    by (rule update_first_distinct[OF assms(2)]) simp
  have once: "toggle_user_evaluator_role d (u_id u) =
      ([d\<lparr>users := update_first ?P ?f (users d)\<rparr>],
       Inr (from_orm (d\<lparr>users := update_first ?P ?f (users d)\<rparr>) (?f v)))"
    using v by (simp add: toggle_user_evaluator_role_def Let_def)
  have v': "first (filter ?P (update_first ?P ?f (users d))) = Some (?f v)"
    using first_filter_update_first[of ?P ?f "users d"] v by simp
  have again: "update_first ?P ?f (update_first ?P ?f (users d)) = users d"
    by (rule update_first_twice) simp_all
  have twice: "final_db (final_db d (toggle_user_evaluator_role d (u_id u)))
      (toggle_user_evaluator_role (final_db d (toggle_user_evaluator_role d (u_id u))) (u_id u)) = d"
    unfolding once using v' again
    by (simp add: final_db_def toggle_user_evaluator_role_def Let_def)
  from once upd vu twice show ?thesis
    by (simp add: from_orm_def)
qed

theorem toggle_evaluator_involution_witness:
  "map u_is_evaluator (users demo_db) = [False, True] \<and>
   map u_is_evaluator (users (final_db demo_db (toggle_user_evaluator_role demo_db 1))) =
     [True, True] \<and>
   final_db (final_db demo_db (toggle_user_evaluator_role demo_db 1))
     (toggle_user_evaluator_role (final_db demo_db (toggle_user_evaluator_role demo_db 1)) 1)
     = demo_db"
proof -
  have 1: "demo_annotator \<in> set (users demo_db)" and 2: "distinct (map u_id (users demo_db))"
    and 3: "u_id demo_annotator = 1"
    by (simp_all add: demo_defs)
  have 4: "map u_is_evaluator (users demo_db) = [False, True]"
    by (simp add: demo_defs)
  have 5: "map u_is_evaluator (map (\<lambda>x. if u_id x = 1
      then x\<lparr>u_is_evaluator := \<not> u_is_evaluator x\<rparr> else x) (users demo_db)) = [True, True]"
    by (simp add: demo_defs)
  from toggle_evaluator_involution[OF 1 2] obtain r where
    once: "toggle_user_evaluator_role demo_db (u_id demo_annotator) =
      ([demo_db\<lparr>users := map (\<lambda>x. if u_id x = u_id demo_annotator
           then x\<lparr>u_is_evaluator := \<not> u_is_evaluator x\<rparr> else x) (users demo_db)\<rparr>], Inr r)"
    and twice: "final_db (final_db demo_db (toggle_user_evaluator_role demo_db (u_id demo_annotator)))
      (toggle_user_evaluator_role
         (final_db demo_db (toggle_user_evaluator_role demo_db (u_id demo_annotator)))
         (u_id demo_annotator)) = demo_db"
    by blast
  have "map u_is_evaluator (users (final_db demo_db (toggle_user_evaluator_role demo_db 1))) =
      [True, True]"
    using once 5 unfolding 3 by (simp add: final_db_def)
  with 4 twice[unfolded 3] show ?thesis by blast
qed

subsection \<open>The evaluator's average time\<close>

lemma times_of_evaluations:
  "map time_spent (filter (\<lambda>e. e_evaluator_id e = uid \<and> e_time_spent_seconds e \<noteq> None) es) =
     List.map_filter (\<lambda>e. if e_evaluator_id e = uid then e_time_spent_seconds e else None) es"
  by (induction es) (auto simp: time_spent_def List.map_filter_def)

text \<open>
  C10: \<^verbatim>\<open>get_evaluator_stats\<close> always returns: with \<open>ts\<close> the non-null
  \<^verbatim>\<open>time_spent_seconds\<close> of the caller's evaluations, the average is 0 when there
  are none and their sum divided by their number otherwise, so the division never
  meets a zero divisor. (The quotient is exact in the model.)
\<close>

theorem evaluator_average_time:
  "\<exists>stats. get_evaluator_stats d cu = Inr stats \<and>
     average_time_per_evaluation stats =
       (let ts = List.map_filter
                   (\<lambda>e. if e_evaluator_id e = u_id cu then e_time_spent_seconds e else None)
                   (evaluations d)
        in if ts = [] then 0 else of_int (sum_list ts) / of_int (int (length ts)))"
proof -
  let ?sel = "\<lambda>e. if e_evaluator_id e = u_id cu then e_time_spent_seconds e else None"
  let ?ts = "List.map_filter ?sel (evaluations d)"
  let ?with = "evaluations_with_time d cu"
  have ts: "map time_spent ?with = ?ts"
    unfolding evaluations_with_time_def by (rule times_of_evaluations)
  then have len: "length ?with = length ?ts"
    by (metis length_map)
  then have emp: "?with = [] \<longleftrightarrow> ?ts = []"
    by (metis length_0_conv)
  have avg: "average_time ?with =
      Inr (if ?ts = [] then 0 else of_int (sum_list ?ts) / of_int (int (length ?ts)))"
  proof (cases "?ts = []")
    case True
    with emp show ?thesis by (simp add: average_time_def)
  next
    case False
    with emp have "?with \<noteq> []" by simp
    then have "int (length ?with) \<noteq> 0" by simp
    with False \<open>?with \<noteq> []\<close> show ?thesis
      unfolding average_time_def true_div_def ts len by simp
  qed
  show ?thesis
    unfolding get_evaluator_stats_def avg by (simp add: Let_def)
qed

theorem evaluator_average_time_witness:
  "average_time_per_evaluation (projr (get_evaluator_stats demo_db demo_evaluator)) = 45 / 2 \<and>
   average_time_per_evaluation
     (projr (get_evaluator_stats demo_db (demo_evaluator\<lparr>u_id := 7\<rparr>))) = 0 \<and>
   \<not> isl (get_evaluator_stats demo_db (demo_evaluator\<lparr>u_id := 7\<rparr>))"
proof -
  have a: "List.map_filter (\<lambda>e. if e_evaluator_id e = u_id demo_evaluator
        then e_time_spent_seconds e else None) (evaluations demo_db) = [30, 15]"
    by (simp add: List.map_filter_def demo_defs)
  have b: "List.map_filter (\<lambda>e. if e_evaluator_id e = u_id (demo_evaluator\<lparr>u_id := 7\<rparr>)
        then e_time_spent_seconds e else None) (evaluations demo_db) = []"
    by (simp add: List.map_filter_def demo_defs)
  from evaluator_average_time[of demo_db demo_evaluator] a
  have 1: "average_time_per_evaluation (projr (get_evaluator_stats demo_db demo_evaluator)) = 45 / 2"
    by (auto simp: Let_def)
  from evaluator_average_time[of demo_db "demo_evaluator\<lparr>u_id := 7\<rparr>"] b
  have 2: "average_time_per_evaluation
      (projr (get_evaluator_stats demo_db (demo_evaluator\<lparr>u_id := 7\<rparr>))) = 0"
    and 3: "\<not> isl (get_evaluator_stats demo_db (demo_evaluator\<lparr>u_id := 7\<rparr>))"
    by (auto simp: Let_def)
  from 1 2 3 show ?thesis by blast
qed

subsection \<open>Rows that the API removes, and rows that it keeps\<close>

lemma add_user_languages_append: "\<exists>new. add_user_languages uid ls t = t @ new"
proof (induction ls arbitrary: t)
  case Nil
  then show ?case by simp
next
  case (Cons l ls)
  from Cons[of "t @ [\<lparr>ul_id = next_id (map ul_id t), ul_user_id = uid, ul_language = l\<rparr>]"]
  show ?case by auto
qed

lemma add_sentences_append: "\<exists>new. add_sentences ss t = t @ new"
proof (induction ss arbitrary: t)
  case Nil
  then show ?case by simp
next
  case (Cons s ss)
  from Cons[of "t @ [new_sentence (next_id (map s_id t)) s]"]
  show ?case by auto
qed

lemma set_add_user_languages: "x \<in> set t \<Longrightarrow> x \<in> set (add_user_languages uid ls t)"
  using add_user_languages_append[of uid ls t] by auto

lemma set_add_sentences: "x \<in> set t \<Longrightarrow> x \<in> set (add_sentences ss t)"
  using add_sentences_append[of ss t] by auto

lemma set_add_highlights: "x \<in> set t \<Longrightarrow> x \<in> set (add_highlights aid hs t)"
  using add_highlights_append[of aid hs t] by auto

lemma image_update_first:
  assumes "\<And>x. g (f x) = g x"
  shows "g ` set (update_first P f xs) = g ` set xs"
  using map_update_first[of g f P xs, OF assms] by (metis set_map)

lemma id_set_evaluation_fields: "e_id (set_evaluation_fields upd e) = e_id e"
  by (simp add: set_evaluation_fields_def)

lemma register_kept:
  "d' \<in> set (fst (register au d ud)) \<Longrightarrow>
     kept d d' \<and> set (user_languages d) \<subseteq> set (user_languages d') \<and>
     text_highlights d' = text_highlights d"
  by (auto simp: register_def Let_def kept_def simp del: add_user_languages.simps
      intro: set_add_user_languages split: option.splits list.splits)

lemma mark_guidelines_seen_kept:
  "d' \<in> set (fst (mark_guidelines_seen d cu)) \<Longrightarrow>
     kept d d' \<and> user_languages d' = user_languages d \<and> text_highlights d' = text_highlights d"
  by (auto simp: mark_guidelines_seen_def Let_def kept_def image_update_first)

lemma create_sentence_kept:
  "d' \<in> set (fst (create_sentence d sd)) \<Longrightarrow>
     kept d d' \<and> user_languages d' = user_languages d \<and> text_highlights d' = text_highlights d"
  by (auto simp: create_sentence_def Let_def kept_def)

lemma bulk_create_sentences_kept:
  "d' \<in> set (fst (bulk_create_sentences d sds)) \<Longrightarrow>
     kept d d' \<and> user_languages d' = user_languages d \<and> text_highlights d' = text_highlights d"
  by (auto simp: bulk_create_sentences_def Let_def kept_def intro: set_add_sentences)

lemma create_annotation_kept:
  "d' \<in> set (fst (create_annotation d cu ad)) \<Longrightarrow>
     kept d d' \<and> user_languages d' = user_languages d \<and>
     set (text_highlights d) \<subseteq> set (text_highlights d')"
  by (auto simp: create_annotation_def Let_def kept_def intro: set_add_highlights
      split: option.splits list.splits)

lemma create_legacy_annotation_kept:
  "d' \<in> set (fst (create_legacy_annotation d cu ad)) \<Longrightarrow>
     kept d d' \<and> user_languages d' = user_languages d \<and> text_highlights d' = text_highlights d"
  by (auto simp: create_legacy_annotation_def Let_def kept_def split: option.splits)

lemma update_annotation_kept:
  assumes "d' \<in> set (fst (update_annotation d cu i upd))"
  shows "kept d d' \<and> user_languages d' = user_languages d \<and>
     (au_highlights upd = None \<longrightarrow> text_highlights d' = text_highlights d) \<and>
     {h \<in> set (text_highlights d). h_annotation_id h \<noteq> i} \<subseteq> set (text_highlights d')"
proof (cases "au_highlights upd")
  case None
  with assms show ?thesis
    by (auto simp: update_annotation_def Let_def kept_def image_update_first
        pair_set_annotation_fields split: option.splits)
next
  case (Some hs)
  have "{h \<in> set (text_highlights d). h_annotation_id h \<noteq> i}
      \<subseteq> set (add_highlights i (unique_highlights hs)
                (filter (\<lambda>h. h_annotation_id h \<noteq> i) (text_highlights d)))"
    by (auto intro: set_add_highlights)
  with assms Some show ?thesis
    by (auto simp: update_annotation_def Let_def kept_def image_update_first
        pair_set_annotation_fields split: option.splits)
qed

lemma toggle_user_evaluator_role_kept:
  "d' \<in> set (fst (toggle_user_evaluator_role d uid)) \<Longrightarrow>
     kept d d' \<and> user_languages d' = user_languages d \<and> text_highlights d' = text_highlights d"
  by (auto simp: toggle_user_evaluator_role_def Let_def kept_def image_update_first
      split: option.splits)

lemma create_evaluation_kept:
  "d' \<in> set (fst (create_evaluation d cu ed)) \<Longrightarrow>
     kept d d' \<and> user_languages d' = user_languages d \<and> text_highlights d' = text_highlights d"
  by (auto simp: create_evaluation_def Let_def kept_def image_update_first split: option.splits)

lemma update_evaluation_kept:
  "d' \<in> set (fst (update_evaluation d cu i upd)) \<Longrightarrow>
     kept d d' \<and> user_languages d' = user_languages d \<and> text_highlights d' = text_highlights d"
  by (auto simp: update_evaluation_def Let_def kept_def image_update_first
      id_set_evaluation_fields split: option.splits)

lemma update_user_languages_kept:
  assumes "d' \<in> set (fst (update_user_languages d cu ls))"
  shows "kept d d' \<and> text_highlights d' = text_highlights d \<and>
     {l \<in> set (user_languages d). ul_user_id l \<noteq> u_id cu} \<subseteq> set (user_languages d')"
proof -
  have "{l \<in> set (user_languages d). ul_user_id l \<noteq> u_id cu}
      \<subseteq> set (add_user_languages (u_id cu) ls
                (filter (\<lambda>l. ul_user_id l \<noteq> u_id cu) (user_languages d)))"
    by (auto intro: set_add_user_languages)
  with assms show ?thesis
    by (auto simp: update_user_languages_def Let_def kept_def image_update_first split: list.splits)
qed

text \<open>
  C6, as amended: in every state that a call commits, every user, annotation and
  evaluation that was stored is stored (under its id; its columns may have been
  updated) and every sentence row is there unchanged. A language row is there unless
  the call is \<^verbatim>\<open>update_user_languages\<close> and the row is the caller's; a highlight row
  is there unless the call is \<^verbatim>\<open>update_annotation\<close> with highlights given and the
  row belongs to the updated annotation.
\<close>

theorem rows_kept:
  assumes "d' \<in> set (commits_of au d cu call)"
  shows "set (map u_id (users d)) \<subseteq> set (map u_id (users d')) \<and>
         set (sentences d) \<subseteq> set (sentences d') \<and>
         set (map a_id (annotations d)) \<subseteq> set (map a_id (annotations d')) \<and>
         set (map e_id (evaluations d)) \<subseteq> set (map e_id (evaluations d')) \<and>
         {l \<in> set (user_languages d).
            (\<exists>ls. call = UpdateUserLanguages ls) \<longrightarrow> ul_user_id l \<noteq> u_id cu}
           \<subseteq> set (user_languages d') \<and>
         {h \<in> set (text_highlights d).
            (\<exists>i upd hs. call = UpdateAnnotation i upd \<and> au_highlights upd = Some hs)
              \<longrightarrow> (\<exists>i upd. call = UpdateAnnotation i upd \<and> h_annotation_id h \<noteq> i)}
           \<subseteq> set (text_highlights d')"
proof (cases call)
  case (Register ud)
  with assms register_kept[of d' au d ud] show ?thesis by (auto simp: kept_def)
next
  case MarkGuidelinesSeen
  with assms mark_guidelines_seen_kept[of d' d cu] show ?thesis by (auto simp: kept_def)
next
  case (CreateSentence sd)
  with assms create_sentence_kept[of d' d sd] show ?thesis by (auto simp: kept_def)
next
  case (BulkCreateSentences sds)
  with assms bulk_create_sentences_kept[of d' d sds] show ?thesis by (auto simp: kept_def)
next
  case (CreateAnnotation ad)
  with assms create_annotation_kept[of d' d cu ad] show ?thesis by (auto simp: kept_def)
next
  case (CreateLegacyAnnotation ad)
  with assms create_legacy_annotation_kept[of d' d cu ad] show ?thesis by (auto simp: kept_def)
next
  case (UpdateAnnotation i upd)
  with assms update_annotation_kept[of d' d cu i upd] show ?thesis
    by (cases "au_highlights upd") (auto simp: kept_def)
next
  case (ToggleUserEvaluatorRole uid)
  with assms toggle_user_evaluator_role_kept[of d' d uid] show ?thesis by (auto simp: kept_def)
next
  case (CreateEvaluation ed)
  with assms create_evaluation_kept[of d' d cu ed] show ?thesis by (auto simp: kept_def)
next
  case (UpdateEvaluation i upd)
  with assms update_evaluation_kept[of d' d cu i upd] show ?thesis by (auto simp: kept_def)
next
  case (UpdateUserLanguages ls)
  with assms update_user_languages_kept[of d' d cu ls] show ?thesis by (auto simp: kept_def)
qed

text \<open>
  Rows are removed: \<^verbatim>\<open>update_user_languages\<close> with an empty list deletes the
  caller's language row, and \<^verbatim>\<open>update_annotation\<close> with an empty list of
  highlights deletes the annotation's highlight row.
\<close>

theorem rows_removed_counterexample:
  "map ul_id (user_languages demo_db) = [1, 2] \<and>
   map ul_id (user_languages (exec demo_auth demo_db demo_annotator (UpdateUserLanguages []))) = [2] \<and>
   \<not> set (map ul_id (user_languages demo_db))
       \<subseteq> set (map ul_id (user_languages
             (exec demo_auth demo_db demo_annotator (UpdateUserLanguages [])))) \<and>
   map h_id (text_highlights demo_db) = [1] \<and>
   map h_id (text_highlights (exec demo_auth demo_db demo_annotator
      (UpdateAnnotation 1 (demo_annotation_update (Some []))))) = [] \<and>
   \<not> set (map h_id (text_highlights demo_db))
       \<subseteq> set (map h_id (text_highlights (exec demo_auth demo_db demo_annotator
             (UpdateAnnotation 1 (demo_annotation_update (Some []))))))"
  by (simp add: exec_def update_user_languages_def update_annotation_def first_def Let_def
      unique_highlights_def demo_defs)

theorem rows_kept_witness:
  "exec demo_auth demo_db demo_annotator (UpdateUserLanguages [''en''])
     \<in> set (commits_of demo_auth demo_db demo_annotator (UpdateUserLanguages [''en''])) \<and>
   set (map u_id (users demo_db))
     \<subseteq> set (map u_id (users (exec demo_auth demo_db demo_annotator (UpdateUserLanguages [''en''])))) \<and>
   \<lparr>ul_id = 2, ul_user_id = 2, ul_language = ''fr''\<rparr>
     \<in> set (user_languages (exec demo_auth demo_db demo_annotator (UpdateUserLanguages [''en'']))) \<and>
   set (text_highlights demo_db)
     \<subseteq> set (text_highlights (exec demo_auth demo_db demo_annotator (UpdateUserLanguages [''en''])))"
proof -
  let ?call = "UpdateUserLanguages [''en'']"
  let ?d' = "exec demo_auth demo_db demo_annotator ?call"
  have mem: "?d' \<in> set (commits_of demo_auth demo_db demo_annotator ?call)"
    by (simp add: exec_def update_user_languages_def Let_def)
  have row: "\<lparr>ul_id = 2, ul_user_id = 2, ul_language = ''fr''\<rparr> \<in> set (user_languages demo_db)"
    "ul_user_id \<lparr>ul_id = 2, ul_user_id = 2, ul_language = ''fr''\<rparr> \<noteq> u_id demo_annotator"
    by (simp_all add: demo_defs)
  from rows_kept[OF mem] row mem show ?thesis
    by blast
qed

subsection \<open>Commits per call\<close>

lemma add_user_languages_rows:
  "\<exists>new. add_user_languages uid ls t = t @ new \<and> map ul_language new = ls \<and>
         map ul_user_id new = replicate (length ls) uid"
proof (induction ls arbitrary: t)
  case Nil
  then show ?case by simp
next
  case (Cons l ls)
  let ?row = "\<lparr>ul_id = next_id (map ul_id t), ul_user_id = uid, ul_language = l\<rparr>"
  from Cons[of "t @ [?row]"] obtain new where
    new: "add_user_languages uid ls (t @ [?row]) = (t @ [?row]) @ new"
      "map ul_language new = ls" "map ul_user_id new = replicate (length ls) uid"
    by blast
  show ?case
    by (rule exI[of _ "?row # new"]) (use new in simp)
qed

lemma first_filter_Some_iff: "(\<exists>x. first (filter P xs) = Some x) \<longleftrightarrow> (\<exists>x\<in>set xs. P x)"
  using first_filter_None[of P xs] by (cases "first (filter P xs)") auto

lemma register_commits:
  fixes ud d au
  defines "i \<equiv> next_id (map u_id (users d))"
  defines "d1 \<equiv> d\<lparr>users := users d @ [new_user au i ud]\<rparr>"
  defines "ls \<equiv> (case uc_languages ud of Some (l # r) \<Rightarrow> l # r
                  | _ \<Rightarrow> (case uc_preferred_language ud of Some (c # cs) \<Rightarrow> [c # cs] | _ \<Rightarrow> []))"
  shows "fst (register au d ud) =
           (if \<exists>u\<in>set (users d). u_email u = uc_email ud \<or> u_username u = uc_username ud then []
            else if ls = [] then [d1]
            else [d1, d1\<lparr>user_languages := add_user_languages i ls (user_languages d)\<rparr>])"
proof (cases "first (filter (\<lambda>u. u_email u = uc_email ud \<or> u_username u = uc_username ud) (users d))")
  case None
  then have no: "\<not> (\<exists>u\<in>set (users d). u_email u = uc_email ud \<or> u_username u = uc_username ud)"
    by (simp add: first_filter_None)
  have id: "u_id (new_user au i ud) = i"
    by (simp add: new_user_def)
  show ?thesis
    unfolding register_def None using no id
    by (auto simp: Let_def i_def d1_def ls_def simp del: add_user_languages.simps
        split: option.splits list.splits)
next
  case (Some u)
  then have "\<exists>u\<in>set (users d). u_email u = uc_email ud \<or> u_username u = uc_username ud"
    using first_filter_Some_iff[of "\<lambda>u. u_email u = uc_email ud \<or> u_username u = uc_username ud" "users d"]
    by blast
  with Some show ?thesis by (simp add: register_def)
qed

lemma create_evaluation_commits:
  fixes ed d cu
  defines "d1 \<equiv> d\<lparr>evaluations := evaluations d @
                    [new_evaluation (next_id (map e_id (evaluations d))) (u_id cu) ed]\<rparr>"
  shows "fst (create_evaluation d cu ed) =
           (if \<exists>e\<in>set (evaluations d). e_annotation_id e = ec_annotation_id ed \<and>
                                          e_evaluator_id e = u_id cu then []
            else if \<exists>a\<in>set (annotations d). a_id a = ec_annotation_id ed
            then [d1, d1\<lparr>annotations :=
                     update_first (\<lambda>a. a_id a = ec_annotation_id ed)
                       (\<lambda>a. a\<lparr>a_annotation_status := Some ''reviewed''\<rparr>) (annotations d)\<rparr>]
            else [d1])"
proof -
  let ?E = "\<lambda>e. e_annotation_id e = ec_annotation_id ed \<and> e_evaluator_id e = u_id cu"
  let ?A = "\<lambda>a. a_id a = ec_annotation_id ed"
  show ?thesis
  proof (cases "first (filter ?E (evaluations d))")
    case (Some e)
    then have "\<exists>e\<in>set (evaluations d). ?E e"
      using first_filter_Some_iff[of ?E "evaluations d"] by blast
    with Some show ?thesis by (simp add: create_evaluation_def)
  next
    case None
    then have no: "\<not> (\<exists>e\<in>set (evaluations d). ?E e)"
      by (simp add: first_filter_None)
    show ?thesis
    proof (cases "first (filter ?A (annotations d))")
      case None2: None
      then have "\<not> (\<exists>a\<in>set (annotations d). ?A a)"
        by (simp add: first_filter_None)
      with no None None2 show ?thesis
        by (simp add: create_evaluation_def Let_def d1_def)
    next
      case (Some a)
      then have "\<exists>a\<in>set (annotations d). ?A a"
        using first_filter_Some_iff[of ?A "annotations d"] by blast
      with no None Some show ?thesis
        by (simp add: create_evaluation_def Let_def d1_def)
    qed
  qed
qed

lemma single_commit_counts:
  "length (fst (mark_guidelines_seen d cu)) = 1"
  "length (fst (create_sentence d sd)) = 1"
  "length (fst (bulk_create_sentences d sds)) = 1"
  "length (fst (update_user_languages d cu ls)) = 1"
  by (simp_all add: mark_guidelines_seen_def create_sentence_def bulk_create_sentences_def
      update_user_languages_def Let_def)

lemma checked_commit_counts:
  "length (fst (create_annotation d cu ad)) =
     (if \<exists>a\<in>set (annotations d). a_sentence_id a = ac_sentence_id ad \<and> a_annotator_id a = u_id cu
      then 0 else 1)"
  "length (fst (create_legacy_annotation d cu lad)) =
     (if \<exists>a\<in>set (annotations d). a_sentence_id a = ac_sentence_id lad \<and> a_annotator_id a = u_id cu
      then 0 else 1)"
  "length (fst (update_annotation d cu i upd)) =
     (if \<exists>a\<in>set (annotations d). a_id a = i \<and> a_annotator_id a = u_id cu then 1 else 0)"
  "length (fst (toggle_user_evaluator_role d uid)) =
     (if \<exists>u\<in>set (users d). u_id u = uid then 1 else 0)"
  "length (fst (update_evaluation d cu j eupd)) =
     (if \<exists>e\<in>set (evaluations d). e_id e = j \<and> e_evaluator_id e = u_id cu then 1 else 0)"
proof -
  show "length (fst (create_annotation d cu ad)) =
     (if \<exists>a\<in>set (annotations d). a_sentence_id a = ac_sentence_id ad \<and> a_annotator_id a = u_id cu
      then 0 else 1)"
    using first_filter_Some_iff[of "\<lambda>a. a_sentence_id a = ac_sentence_id ad \<and>
        a_annotator_id a = u_id cu" "annotations d"]
    by (auto simp: create_annotation_def Let_def split: option.splits)
  show "length (fst (create_legacy_annotation d cu lad)) =
     (if \<exists>a\<in>set (annotations d). a_sentence_id a = ac_sentence_id lad \<and> a_annotator_id a = u_id cu
      then 0 else 1)"
    using first_filter_Some_iff[of "\<lambda>a. a_sentence_id a = ac_sentence_id lad \<and>
        a_annotator_id a = u_id cu" "annotations d"]
    by (auto simp: create_legacy_annotation_def Let_def split: option.splits)
  show "length (fst (update_annotation d cu i upd)) =
     (if \<exists>a\<in>set (annotations d). a_id a = i \<and> a_annotator_id a = u_id cu then 1 else 0)"
    using first_filter_Some_iff[of "\<lambda>a. a_id a = i \<and> a_annotator_id a = u_id cu" "annotations d"]
    by (auto simp: update_annotation_def Let_def split: option.splits)
  show "length (fst (toggle_user_evaluator_role d uid)) =
     (if \<exists>u\<in>set (users d). u_id u = uid then 1 else 0)"
    using first_filter_Some_iff[of "\<lambda>u. u_id u = uid" "users d"]
    by (auto simp: toggle_user_evaluator_role_def Let_def split: option.splits)
  show "length (fst (update_evaluation d cu j eupd)) =
     (if \<exists>e\<in>set (evaluations d). e_id e = j \<and> e_evaluator_id e = u_id cu then 1 else 0)"
    using first_filter_Some_iff[of "\<lambda>e. e_id e = j \<and> e_evaluator_id e = u_id cu" "evaluations d"]
    by (auto simp: update_evaluation_def Let_def split: option.splits)
qed

text \<open>
  C5, as amended: \<^verbatim>\<open>register\<close> commits nothing when the email or username is
  taken; otherwise it commits the database with the new user row and then, when the
  payload gives a non-empty list of languages (or else a preferred_language), commits
  a second time, the second state adding one language row of the new user for each of
  them. \<^verbatim>\<open>create_evaluation\<close> commits nothing when the caller has evaluated the
  annotation; otherwise it commits the database with the new evaluation and then, when
  the annotation is stored, commits a second time, the second state having that
  annotation's status "reviewed". Every other call commits exactly once when it
  passes its check (the handlers without a check always) and not at all when it is
  rejected, so what it writes becomes visible together or not at all.
\<close>

theorem commits_per_call:
  "(\<forall>ud. call = Register ud \<longrightarrow>
      (let i = next_id (map u_id (users d));
           d1 = d\<lparr>users := users d @ [new_user au i ud]\<rparr>;
           ls = (case uc_languages ud of
                   Some (l # r) \<Rightarrow> l # r
                 | _ \<Rightarrow> (case uc_preferred_language ud of Some (c # cs) \<Rightarrow> [c # cs] | _ \<Rightarrow> []))
       in if \<exists>u\<in>set (users d). u_email u = uc_email ud \<or> u_username u = uc_username ud
          then commits_of au d cu call = []
          else if ls = [] then commits_of au d cu call = [d1]
          else (\<exists>new. map ul_language new = ls \<and>
                  map ul_user_id new = replicate (length ls) i \<and>
                  commits_of au d cu call =
                    [d1, d1\<lparr>user_languages := user_languages d @ new\<rparr>]))) \<and>
   (\<forall>ed. call = CreateEvaluation ed \<longrightarrow>
      (let d1 = d\<lparr>evaluations := evaluations d @
                    [new_evaluation (next_id (map e_id (evaluations d))) (u_id cu) ed]\<rparr>;
           reviewed = update_first (\<lambda>a. a_id a = ec_annotation_id ed)
                        (\<lambda>a. a\<lparr>a_annotation_status := Some ''reviewed''\<rparr>) (annotations d)
       in (if \<exists>e\<in>set (evaluations d). e_annotation_id e = ec_annotation_id ed \<and>
                                          e_evaluator_id e = u_id cu
           then commits_of au d cu call = []
           else if \<exists>a\<in>set (annotations d). a_id a = ec_annotation_id ed
           then commits_of au d cu call = [d1, d1\<lparr>annotations := reviewed\<rparr>]
           else commits_of au d cu call = [d1]) \<and>
          (distinct (map a_id (annotations d)) \<longrightarrow>
             reviewed =
               map (\<lambda>a. if a_id a = ec_annotation_id ed
                         then a\<lparr>a_annotation_status := Some ''reviewed''\<rparr> else a)
                 (annotations d)))) \<and>
   (call = MarkGuidelinesSeen \<longrightarrow> length (commits_of au d cu call) = 1) \<and>
   (\<forall>sd. call = CreateSentence sd \<longrightarrow> length (commits_of au d cu call) = 1) \<and>
   (\<forall>sds. call = BulkCreateSentences sds \<longrightarrow> length (commits_of au d cu call) = 1) \<and>
   (\<forall>languages. call = UpdateUserLanguages languages \<longrightarrow>
      length (commits_of au d cu call) = 1) \<and>
   (\<forall>ad. call = CreateAnnotation ad \<longrightarrow>
      length (commits_of au d cu call) =
        (if \<exists>a\<in>set (annotations d).
              a_sentence_id a = ac_sentence_id ad \<and> a_annotator_id a = u_id cu
         then 0 else 1)) \<and>
   (\<forall>ad. call = CreateLegacyAnnotation ad \<longrightarrow>
      length (commits_of au d cu call) =
        (if \<exists>a\<in>set (annotations d).
              a_sentence_id a = ac_sentence_id ad \<and> a_annotator_id a = u_id cu
         then 0 else 1)) \<and>
   (\<forall>i upd. call = UpdateAnnotation i upd \<longrightarrow>
      length (commits_of au d cu call) =
        (if \<exists>a\<in>set (annotations d). a_id a = i \<and> a_annotator_id a = u_id cu
         then 1 else 0)) \<and>
   (\<forall>uid. call = ToggleUserEvaluatorRole uid \<longrightarrow>
      length (commits_of au d cu call) = (if \<exists>u\<in>set (users d). u_id u = uid then 1 else 0)) \<and>
   (\<forall>i upd. call = UpdateEvaluation i upd \<longrightarrow>
      length (commits_of au d cu call) =
        (if \<exists>e\<in>set (evaluations d). e_id e = i \<and> e_evaluator_id e = u_id cu
         then 1 else 0))"
proof -
  have reg: "?thesis" if call: "call = Register ud" for ud
  proof -
    let ?i = "next_id (map u_id (users d))"
    let ?ls = "case uc_languages ud of
                 Some (l # r) \<Rightarrow> l # r
               | _ \<Rightarrow> (case uc_preferred_language ud of Some (c # cs) \<Rightarrow> [c # cs] | _ \<Rightarrow> [])"
    from add_user_languages_rows[of ?i ?ls "user_languages d"] obtain new where
      new: "add_user_languages ?i ?ls (user_languages d) = user_languages d @ new"
        "map ul_language new = ?ls" "map ul_user_id new = replicate (length ?ls) ?i"
      by blast
    show ?thesis
      unfolding call using register_commits[of au d ud] new
      by (auto simp: Let_def)
  qed
  have ev: "?thesis" if call: "call = CreateEvaluation ed" for ed
    unfolding call
    using create_evaluation_commits[of d cu ed]
      update_first_distinct[of a_id "annotations d" "\<lambda>a. a_id a = ec_annotation_id ed"
        "ec_annotation_id ed" "\<lambda>a. a\<lparr>a_annotation_status := Some ''reviewed''\<rparr>"]
    by (simp add: Let_def)
  show ?thesis
  proof (cases call)
    case (Register ud)
    then show ?thesis by (rule reg)
  next
    case (CreateEvaluation ed)
    then show ?thesis by (rule ev)
  qed (simp_all add: single_commit_counts checked_commit_counts)
qed

theorem commits_per_call_witness:
  "length (commits_of demo_auth demo_db demo_annotator
      (Register (demo_user_create None (Some [''cebuano'', ''fr''])))) = 2 \<and>
   map ul_language (user_languages (last (commits_of demo_auth demo_db demo_annotator
      (Register (demo_user_create None (Some [''cebuano'', ''fr'']))))))
     = [''fr'', ''fr'', ''cebuano'', ''fr''] \<and>
   length (commits_of demo_auth demo_db demo_annotator
      (Register (demo_user_create None None))) = 1 \<and>
   length (commits_of demo_auth demo_db demo_evaluator
      (CreateEvaluation (demo_evaluation_create 1))) = 2 \<and>
   map a_annotation_status (annotations (last (commits_of demo_auth demo_db demo_evaluator
      (CreateEvaluation (demo_evaluation_create 1)))))
     = [Some ''reviewed'', Some ''completed'', Some ''reviewed'', Some ''completed''] \<and>
   length (commits_of demo_auth demo_db demo_evaluator
      (CreateEvaluation (demo_evaluation_create 9))) = 1 \<and>
   length (commits_of demo_auth demo_db demo_evaluator
      (CreateEvaluation (demo_evaluation_create 3))) = 0 \<and>
   length (commits_of demo_auth demo_db demo_annotator
      (CreateAnnotation (demo_annotation_create 5 (Some demo_highlights)))) = 1 \<and>
   length (commits_of demo_auth demo_db demo_annotator
      (CreateAnnotation (demo_annotation_create 1 (Some demo_highlights)))) = 0"
proof -
  let ?r2 = "Register (demo_user_create None (Some [''cebuano'', ''fr'']))"
  let ?r1 = "Register (demo_user_create None None)"
  let ?e2 = "CreateEvaluation (demo_evaluation_create 1)"
  let ?e1 = "CreateEvaluation (demo_evaluation_create 9)"
  let ?e0 = "CreateEvaluation (demo_evaluation_create 3)"
  let ?a1 = "CreateAnnotation (demo_annotation_create 5 (Some demo_highlights))"
  let ?a0 = "CreateAnnotation (demo_annotation_create 1 (Some demo_highlights))"
  have free: "\<not> (\<exists>u\<in>set (users demo_db). u_email u = ''cora@example.com'' \<or> u_username u = ''cora'')"
    by (simp add: demo_defs)
  have old: "map ul_language (user_languages demo_db) = [''fr'', ''fr'']"
    by (simp add: demo_defs)
  from commits_per_call[of ?r2 demo_db demo_auth demo_annotator] free old
  have r2: "length (commits_of demo_auth demo_db demo_annotator ?r2) = 2"
    "map ul_language (user_languages (last (commits_of demo_auth demo_db demo_annotator ?r2)))
       = [''fr'', ''fr'', ''cebuano'', ''fr'']"
    by (auto simp: Let_def demo_user_create_def)
  from commits_per_call[of ?r1 demo_db demo_auth demo_annotator] free
  have r1: "length (commits_of demo_auth demo_db demo_annotator ?r1) = 1"
    by (auto simp: Let_def demo_user_create_def)
  have ev: "\<not> (\<exists>e\<in>set (evaluations demo_db). e_annotation_id e = 1 \<and> e_evaluator_id e = 2)"
    "\<not> (\<exists>e\<in>set (evaluations demo_db). e_annotation_id e = 9 \<and> e_evaluator_id e = 2)"
    "\<exists>e\<in>set (evaluations demo_db). e_annotation_id e = 3 \<and> e_evaluator_id e = 2"
    "\<exists>a\<in>set (annotations demo_db). a_id a = 1"
    "\<not> (\<exists>a\<in>set (annotations demo_db). a_id a = 9)"
    "distinct (map a_id (annotations demo_db))"
    "u_id demo_evaluator = 2"
    by (simp_all add: demo_defs)
  have st: "map a_annotation_status
      (map (\<lambda>a. if a_id a = 1 then a\<lparr>a_annotation_status := Some ''reviewed''\<rparr> else a)
         (annotations demo_db))
      = [Some ''reviewed'', Some ''completed'', Some ''reviewed'', Some ''completed'']"
    by (simp add: demo_defs)
  from commits_per_call[of ?e2 demo_db demo_auth demo_evaluator] ev st
  have e2: "length (commits_of demo_auth demo_db demo_evaluator ?e2) = 2"
    "map a_annotation_status (annotations (last (commits_of demo_auth demo_db demo_evaluator ?e2)))
       = [Some ''reviewed'', Some ''completed'', Some ''reviewed'', Some ''completed'']"
    by (auto simp: Let_def demo_evaluation_create_def)
  from commits_per_call[of ?e1 demo_db demo_auth demo_evaluator] ev
  have e1: "length (commits_of demo_auth demo_db demo_evaluator ?e1) = 1"
    by (auto simp: Let_def demo_evaluation_create_def)
  from commits_per_call[of ?e0 demo_db demo_auth demo_evaluator] ev
  have e0: "length (commits_of demo_auth demo_db demo_evaluator ?e0) = 0"
    by (auto simp: Let_def demo_evaluation_create_def)
  have an: "\<not> (\<exists>a\<in>set (annotations demo_db). a_sentence_id a = 5 \<and> a_annotator_id a = u_id demo_annotator)"
    "\<exists>a\<in>set (annotations demo_db). a_sentence_id a = 1 \<and> a_annotator_id a = u_id demo_annotator"
    by (simp_all add: demo_defs)
  from commits_per_call[of ?a1 demo_db demo_auth demo_annotator] an
  have a1: "length (commits_of demo_auth demo_db demo_annotator ?a1) = 1"
    by (auto simp: demo_annotation_create_def)
  from commits_per_call[of ?a0 demo_db demo_auth demo_annotator] an
  have a0: "length (commits_of demo_auth demo_db demo_annotator ?a0) = 0"
    by (auto simp: demo_annotation_create_def)
  from r2 r1 e2 e1 e0 a1 a0 show ?thesis by blast
qed

text \<open>
  Two commits in one call: \<^verbatim>\<open>register\<close> first commits a state with the new user and
  none of its language rows, \<^verbatim>\<open>create_evaluation\<close> a state with the new evaluation
  and the annotation still "completed".
\<close>

theorem single_transaction_counterexample:
  "length (commits_of demo_auth demo_db demo_annotator
     (Register (demo_user_create None (Some [''cebuano'', ''fr''])))) = 2 \<and>
   map u_id (users (hd (commits_of demo_auth demo_db demo_annotator
     (Register (demo_user_create None (Some [''cebuano'', ''fr''])))))) = [1, 2, 3] \<and>
   get_user_languages (hd (commits_of demo_auth demo_db demo_annotator
     (Register (demo_user_create None (Some [''cebuano'', ''fr''])))))  3 = [] \<and>
   get_user_languages (exec demo_auth demo_db demo_annotator
     (Register (demo_user_create None (Some [''cebuano'', ''fr''])))) 3 = [''cebuano'', ''fr''] \<and>
   length (commits_of demo_auth demo_db demo_evaluator
     (CreateEvaluation (demo_evaluation_create 1))) = 2 \<and>
   map e_id (evaluations (hd (commits_of demo_auth demo_db demo_evaluator
     (CreateEvaluation (demo_evaluation_create 1))))) = [1, 2, 3, 4, 5] \<and>
   map a_annotation_status (annotations (hd (commits_of demo_auth demo_db demo_evaluator
     (CreateEvaluation (demo_evaluation_create 1))))) =
     [Some ''completed'', Some ''completed'', Some ''reviewed'', Some ''completed''] \<and>
   map a_annotation_status (annotations (exec demo_auth demo_db demo_evaluator
     (CreateEvaluation (demo_evaluation_create 1)))) =
     [Some ''reviewed'', Some ''completed'', Some ''reviewed'', Some ''completed'']"
  by (simp add: exec_def register_def create_evaluation_def first_def Let_def new_user_def
      new_evaluation_def next_id_def get_user_languages_def demo_defs demo_user_create_def)

subsection \<open>The assumptions on the database are invariants\<close>

lemma sorted_append_next_id: "sorted_wrt (<) ids \<Longrightarrow> sorted_wrt (<) (ids @ [next_id ids])"
  by (simp add: sorted_wrt_append next_id_greater)

lemma distinct_append_next_id: "distinct ids \<Longrightarrow> distinct (ids @ [next_id ids])"
  using next_id_greater[of "next_id ids" ids] by auto

lemma add_sentences_sorted:
  "sorted_wrt (<) (map s_id t) \<Longrightarrow> sorted_wrt (<) (map s_id (add_sentences ss t))"
proof (induction ss arbitrary: t)
  case Nil
  then show ?case by simp
next
  case (Cons s ss)
  from sorted_append_next_id[OF Cons.prems]
  have "sorted_wrt (<) (map s_id (t @ [new_sentence (next_id (map s_id t)) s]))"
    by (simp add: new_sentence_def)
  from Cons.IH[OF this] show ?case by simp
qed

lemma add_highlights_annotation_ids:
  "h_annotation_id ` set (add_highlights aid hs t) \<subseteq> insert aid (h_annotation_id ` set t)"
  using add_highlights_append[of aid hs t] by auto

lemma register_well_formed:
  assumes "d' \<in> set (fst (register au d ud))" "well_formed d"
  shows "well_formed d'"
proof -
  have "u_id (new_user au i ud) = i" for i
    by (simp add: new_user_def)
  with assms distinct_append_next_id[of "map u_id (users d)"] show ?thesis
    by (auto simp: register_def Let_def well_formed_def simp del: add_user_languages.simps
        split: option.splits list.splits)
qed

lemma sentences_well_formed:
  assumes "well_formed d"
  shows "d' \<in> set (fst (create_sentence d sd)) \<Longrightarrow> well_formed d'"
    and "d' \<in> set (fst (bulk_create_sentences d sds)) \<Longrightarrow> well_formed d'"
proof -
  have "sorted_wrt (<) (map s_id (add_sentences ss (sentences d)))" for ss
    using assms by (simp add: add_sentences_sorted well_formed_def)
  from this[of "[sd]"] this[of sds] assms
  show "d' \<in> set (fst (create_sentence d sd)) \<Longrightarrow> well_formed d'"
    and "d' \<in> set (fst (bulk_create_sentences d sds)) \<Longrightarrow> well_formed d'"
    by (auto simp: create_sentence_def bulk_create_sentences_def Let_def well_formed_def)
qed

lemma users_only_well_formed:
  assumes "well_formed d"
  shows "d' \<in> set (fst (mark_guidelines_seen d cu)) \<Longrightarrow> well_formed d'"
    and "d' \<in> set (fst (toggle_user_evaluator_role d uid)) \<Longrightarrow> well_formed d'"
    and "d' \<in> set (fst (update_user_languages d cu ls)) \<Longrightarrow> well_formed d'"
  using assms
  by (auto simp: mark_guidelines_seen_def toggle_user_evaluator_role_def
      update_user_languages_def Let_def well_formed_def map_update_first image_update_first
      split: option.splits list.splits)

lemma create_annotation_well_formed:
  assumes "d' \<in> set (fst (create_annotation d cu ad))" "well_formed d"
  shows "well_formed d'"
proof -
  let ?i = "next_id (map a_id (annotations d))"
  have new: "a_id (new_annotation ?i (u_id cu) ad) = ?i"
    by (simp add: new_annotation_def)
  have "h_annotation_id h \<in> insert ?i (set (map a_id (annotations d)))"
    if "h \<in> set (add_highlights ?i hs (text_highlights d))" for h hs
    using add_highlights_annotation_ids[of ?i hs "text_highlights d"] that assms(2)
    by (auto simp: well_formed_def)
  with assms new distinct_append_next_id[of "map a_id (annotations d)"] show ?thesis
    by (auto simp: create_annotation_def Let_def well_formed_def
        split: option.splits list.splits)
qed

lemma create_legacy_annotation_well_formed:
  assumes "d' \<in> set (fst (create_legacy_annotation d cu ad))" "well_formed d"
  shows "well_formed d'"
proof -
  have "a_id (new_annotation i (u_id cu) ad) = i" for i
    by (simp add: new_annotation_def)
  with assms distinct_append_next_id[of "map a_id (annotations d)"] show ?thesis
    by (auto simp: create_legacy_annotation_def Let_def well_formed_def split: option.splits)
qed

lemma update_annotation_well_formed:
  assumes "d' \<in> set (fst (update_annotation d cu i upd))" "well_formed d"
  shows "well_formed d'"
proof -
  from assms(1) obtain b where
    b: "first (filter (\<lambda>a. a_id a = i \<and> a_annotator_id a = u_id cu) (annotations d)) = Some b"
    by (auto simp: update_annotation_def split: option.splits)
  then have i: "i \<in> set (map a_id (annotations d))"
    by (auto dest!: first_filter_Some)
  have ids: "map a_id (update_first (\<lambda>a. a_id a = i \<and> a_annotator_id a = u_id cu)
      (set_annotation_fields upd) (annotations d)) = map a_id (annotations d)"
    "a_id ` set (update_first (\<lambda>a. a_id a = i \<and> a_annotator_id a = u_id cu)
      (set_annotation_fields upd) (annotations d)) = a_id ` set (annotations d)"
    by (simp_all add: map_update_first image_update_first pair_set_annotation_fields)
  have "h_annotation_id h \<in> set (map a_id (annotations d))"
    if "h \<in> set (add_highlights i hs (filter (\<lambda>h. h_annotation_id h \<noteq> i) (text_highlights d)))"
    for h hs
    using add_highlights_annotation_ids[of i hs
        "filter (\<lambda>h. h_annotation_id h \<noteq> i) (text_highlights d)"] that assms(2) i
    by (auto simp: well_formed_def)
  with assms b ids show ?thesis
    by (auto simp: update_annotation_def Let_def well_formed_def split: option.splits)
qed

lemma evaluations_well_formed:
  assumes "well_formed d"
  shows "d' \<in> set (fst (create_evaluation d cu ed)) \<Longrightarrow> well_formed d'"
    and "d' \<in> set (fst (update_evaluation d cu i upd)) \<Longrightarrow> well_formed d'"
  using assms
  by (auto simp: create_evaluation_def update_evaluation_def Let_def well_formed_def
      map_update_first image_update_first split: option.splits)

text \<open>
  The empty database is well formed, and so is every state that a call commits from a
  well-formed one: the hypotheses of the properties above (sentences in key order,
  ids of users and annotations distinct, highlights of stored annotations only) hold
  in every database that the API builds.
\<close>

lemma well_formed_empty_db: "well_formed empty_db"
  by (simp add: well_formed_def empty_db_def)

lemma well_formed_preserved:
  assumes "well_formed d" "d' \<in> set (commits_of au d cu call)"
  shows "well_formed d'"
proof (cases call)
  case (Register ud)
  with assms show ?thesis by (auto intro: register_well_formed)
next
  case MarkGuidelinesSeen
  with assms show ?thesis by (auto intro: users_only_well_formed(1))
next
  case (CreateSentence sd)
  with assms show ?thesis by (auto intro: sentences_well_formed(1))
next
  case (BulkCreateSentences sds)
  with assms show ?thesis by (auto intro: sentences_well_formed(2))
next
  case (CreateAnnotation ad)
  with assms show ?thesis by (auto intro: create_annotation_well_formed)
next
  case (CreateLegacyAnnotation ad)
  with assms show ?thesis by (auto intro: create_legacy_annotation_well_formed)
next
  case (UpdateAnnotation i upd)
  with assms show ?thesis by (auto intro: update_annotation_well_formed)
next
  case (ToggleUserEvaluatorRole uid)
  with assms show ?thesis by (auto intro: users_only_well_formed(2))
next
  case (CreateEvaluation ed)
  with assms show ?thesis by (auto intro: evaluations_well_formed(1))
next
  case (UpdateEvaluation i upd)
  with assms show ?thesis by (auto intro: evaluations_well_formed(2))
next
  case (UpdateUserLanguages ls)
  with assms show ?thesis by (auto intro: users_only_well_formed(3))
qed

end
